theory Spec2Isabelle
  imports Complex_Main "HOL-Library.Word"
begin

section \<open>JavaScript values and operators\<close>

text \<open>
  The numbers of the program are IEEE doubles. \<open>Num r\<close> is the finite double \<open>r\<close>,
  \<open>Infinity\<close> and \<open>NegInfinity\<close> are the two infinities, \<open>NaN\<close> is the not-a-number value
  and \<open>Undefined\<close> is the value an out-of-range array read yields. A result of arithmetic
  overflows to an infinity from \<open>2^1024 - 2^970\<close> on, the least magnitude that rounds beyond
  the largest double. Below that bound results are kept exact: the rounding to 53 bits and
  the sign of zero are outside the model. Every concrete input used below is a dyadic number
  on which double arithmetic is exact.
\<close>

datatype jsval = Num real | Infinity | NegInfinity | NaN | Undefined

datatype js_error = TypeError | RangeError | IndexSizeError

definition double_overflow :: real where
  "double_overflow = 2 ^ 1024 - 2 ^ 970"

definition to_double :: "real \<Rightarrow> jsval" where
  "to_double r =
     (if double_overflow \<le> r then Infinity
      else if r \<le> - double_overflow then NegInfinity
      else Num r)"

text \<open>An infinity with the sign of \<open>a\<close>; NaN when \<open>a\<close> is zero.\<close>

definition signed_infinity :: "real \<Rightarrow> jsval" where
  "signed_infinity a = (if 0 < a then Infinity else if a < 0 then NegInfinity else NaN)"

text \<open>Binary \<open>-\<close>, \<open>*\<close>, \<open>/\<close>: both operands go through ToNumber, which sends
  \<open>undefined\<close> to NaN, and NaN is absorbing. The difference of equal infinities, the
  product of zero and an infinity, and the quotients \<open>0 / 0\<close> and of two infinities are
  NaN.\<close>

fun js_sub :: "jsval \<Rightarrow> jsval \<Rightarrow> jsval" where
  "js_sub (Num a) (Num b) = to_double (a - b)"
| "js_sub (Num a) Infinity = NegInfinity"
| "js_sub (Num a) NegInfinity = Infinity"
| "js_sub Infinity (Num b) = Infinity"
| "js_sub Infinity NegInfinity = Infinity"
| "js_sub NegInfinity (Num b) = NegInfinity"
| "js_sub NegInfinity Infinity = NegInfinity"
| "js_sub _ _ = NaN"

fun js_mul :: "jsval \<Rightarrow> jsval \<Rightarrow> jsval" where
  "js_mul (Num a) (Num b) = to_double (a * b)"
| "js_mul (Num a) Infinity = signed_infinity a"
| "js_mul (Num a) NegInfinity = signed_infinity (- a)"
| "js_mul Infinity (Num b) = signed_infinity b"
| "js_mul NegInfinity (Num b) = signed_infinity (- b)"
| "js_mul Infinity Infinity = Infinity"
| "js_mul NegInfinity NegInfinity = Infinity"
| "js_mul Infinity NegInfinity = NegInfinity"
| "js_mul NegInfinity Infinity = NegInfinity"
| "js_mul _ _ = NaN"

fun js_div :: "jsval \<Rightarrow> jsval \<Rightarrow> jsval" where
  "js_div (Num a) (Num b) = (if b = 0 then signed_infinity a else to_double (a / b))"
| "js_div (Num a) Infinity = Num 0"
| "js_div (Num a) NegInfinity = Num 0"
| "js_div Infinity (Num b) = (if b < 0 then NegInfinity else Infinity)"
| "js_div NegInfinity (Num b) = (if b < 0 then Infinity else NegInfinity)"
| "js_div _ _ = NaN"

text \<open>Relational \<open>>\<close> and \<open><\<close>: false as soon as one side is NaN or undefined.\<close>

fun js_gt :: "jsval \<Rightarrow> jsval \<Rightarrow> bool" where
  "js_gt (Num a) (Num b) = (a > b)"
| "js_gt Infinity (Num b) = True"
| "js_gt Infinity NegInfinity = True"
| "js_gt (Num a) NegInfinity = True"
| "js_gt _ _ = False"

fun js_lt :: "jsval \<Rightarrow> jsval \<Rightarrow> bool" where
  "js_lt (Num a) (Num b) = (a < b)"
| "js_lt (Num a) Infinity = True"
| "js_lt NegInfinity Infinity = True"
| "js_lt NegInfinity (Num b) = True"
| "js_lt _ _ = False"

text \<open>Loose inequality \<open>!=\<close>: NaN differs from everything, itself included;
  \<open>undefined\<close> equals only \<open>undefined\<close> (and \<open>null\<close>).\<close>

fun js_neq :: "jsval \<Rightarrow> jsval \<Rightarrow> bool" where
  "js_neq (Num a) (Num b) = (a \<noteq> b)"
| "js_neq Infinity Infinity = False"
| "js_neq NegInfinity NegInfinity = False"
| "js_neq Undefined Undefined = False"
| "js_neq _ _ = True"

text \<open>Reading \<open>xs[i]\<close>: \<open>undefined\<close> beyond the end of the array.\<close>

definition js_index :: "jsval list \<Rightarrow> nat \<Rightarrow> jsval" where
  "js_index xs i = (if i < length xs then xs ! i else Undefined)"

text \<open>Assigning to an AudioParam (\<open>gain.value = v\<close>, \<open>gain.setValueAtTime(v, 0)\<close>):
  the argument is a Web IDL \<open>float\<close>. The conversion raises TypeError for NaN, for an
  infinity, and for a number that rounds beyond the largest single-precision value, that
  is from \<open>2^128 - 2^103\<close> on. The parameter stores the number rounded to single
  precision; the model keeps the number itself, which is what the parameter stores when
  the number is a single-precision value. The nominal range of the parameter is outside
  the model.\<close>

definition float_overflow :: real where
  "float_overflow = 2 ^ 128 - 2 ^ 103"

definition audio_param_float :: "jsval \<Rightarrow> js_error + real" where
  "audio_param_float v =
     (case v of
        Num x \<Rightarrow> (if \<bar>x\<bar> < float_overflow then Inr x else Inl TypeError)
      | Infinity \<Rightarrow> Inl TypeError
      | NegInfinity \<Rightarrow> Inl TypeError
      | NaN \<Rightarrow> Inl TypeError
      | Undefined \<Rightarrow> Inl TypeError)"

text \<open>The finite single-precision values are the numbers \<open>m * 2^(e - 149)\<close> with
  \<open>|m| < 2^24\<close> and \<open>e \<le> 253\<close>.\<close>

definition single_precision :: "int \<Rightarrow> nat \<Rightarrow> real" where
  "single_precision m e = of_int m * 2 ^ e / 2 ^ 149"

section \<open>The equalizer (equalizer.js)\<close>

text \<open>\<open>filter_gain\<close> is the gain in dB of \<open>this.filters[i]\<close>, for the 40 bands.\<close>

record equalizer =
  normalize :: bool
  param_curve :: "jsval list"
  param_range :: jsval
  filter_gain :: "real list"

text \<open>The constructor's loop: each new filter receives \<open>this.param.curve[i]\<close> as its gain.\<close>

function ctor_loop :: "jsval list \<Rightarrow> nat \<Rightarrow> real list \<Rightarrow> js_error + real list" where
  "ctor_loop curve i fs =
     (if i < 40 then
        (case audio_param_float (js_index curve i) of
           Inl e \<Rightarrow> Inl e
         | Inr g \<Rightarrow> ctor_loop curve (Suc i) (fs @ [g]))
      else Inr fs)"
  by pat_completeness auto
termination
  by (relation "measure (\<lambda>(curve, i, fs). 40 - i)") auto

declare ctor_loop.simps [simp del]

text \<open>\<open>new Equalizer(context, opts)\<close>: \<open>opts.curve\<close> may be absent (\<open>None\<close>), and then
  \<open>this.param.curve[i]\<close> raises TypeError; an absent \<open>opts.range\<close> (\<open>Undefined\<close>)
  becomes 1.\<close>

definition Equalizer :: "jsval list option \<Rightarrow> jsval \<Rightarrow> js_error + equalizer" where
  "Equalizer opts_curve opts_range =
     (let r = (if opts_range = Undefined then Num 1 else opts_range) in
      case opts_curve of
        None \<Rightarrow> Inl TypeError
      | Some c \<Rightarrow>
          (case ctor_loop c 0 [] of
             Inl e \<Rightarrow> Inl e
           | Inr fs \<Rightarrow> Inr \<lparr>normalize = True, param_curve = c, param_range = r, filter_gain = fs\<rparr>))"

text \<open>The curve setter. First loop: \<open>max_el\<close> and \<open>min_el\<close>, both starting from 0.\<close>

function minmax_loop :: "jsval list \<Rightarrow> nat \<Rightarrow> jsval \<times> jsval \<Rightarrow> jsval \<times> jsval" where
  "minmax_loop v i (max_el, min_el) =
     (if i < 40 then
        (let max_el' = (if js_gt (js_index v i) max_el then js_index v i else max_el);
             min_el' = (if js_lt (js_index v i) min_el then js_index v i else min_el)
         in minmax_loop v (Suc i) (max_el', min_el'))
      else (max_el, min_el))"
  by pat_completeness auto
termination
  by (relation "measure (\<lambda>(v, i, m). 40 - i)") auto

declare minmax_loop.simps [simp del]

text \<open>Second loop: normalise, push, and set the gain of band \<open>i\<close>. When
  \<open>max_el = min_el\<close> nothing is pushed, so \<open>this.param.curve[i]\<close> is \<open>undefined\<close>.
  Reading \<open>this.filters[i].gain\<close> of a missing filter raises TypeError, as does a
  non-finite gain; the error leaves the equalizer as it is at that point.\<close>

definition push_curve :: "equalizer \<Rightarrow> jsval list \<Rightarrow> jsval \<Rightarrow> jsval \<Rightarrow> nat \<Rightarrow> jsval list" where
  "push_curve eq v max_el min_el i =
     (if normalize eq then
        (let dat = js_sub (js_index v i) min_el in
         if js_neq max_el min_el then
           (let dat' = js_mul (js_div dat (js_sub max_el min_el)) (Num 2)
            in param_curve eq @ [js_sub dat' (Num 1)])
         else param_curve eq)
      else param_curve eq @ [js_index v i])"

function set_loop :: "equalizer \<Rightarrow> jsval list \<Rightarrow> jsval \<Rightarrow> jsval \<Rightarrow> nat
    \<Rightarrow> (js_error \<times> equalizer) + equalizer" where
  "set_loop eq v max_el min_el i =
     (if i < 40 then
        (let eq1 = eq\<lparr>param_curve := push_curve eq v max_el min_el i\<rparr> in
         if length (filter_gain eq1) \<le> i then Inl (TypeError, eq1)
         else
           (case audio_param_float
                   (js_mul (js_mul (param_range eq1) (Num 5)) (js_index (param_curve eq1) i)) of
              Inl e \<Rightarrow> Inl (e, eq1)
            | Inr g \<Rightarrow>
                set_loop (eq1\<lparr>filter_gain := (filter_gain eq1)[i := g]\<rparr>) v max_el min_el (Suc i)))
      else Inr eq)"
  by pat_completeness auto
termination
  by (relation "measure (\<lambda>(eq, v, max_el, min_el, i). 40 - i)") auto

declare set_loop.simps [simp del]

text \<open>The setter function itself: it returns \<open>-1\<close> for a wrong length and
  \<open>undefined\<close> otherwise.\<close>

definition curve_set :: "equalizer \<Rightarrow> jsval list \<Rightarrow> (js_error \<times> equalizer) + (jsval \<times> equalizer)" where
  "curve_set eq v =
     (if length v \<noteq> 40 then Inr (Num (- 1), eq)
      else
        (let eq0 = eq\<lparr>param_curve := []\<rparr>;
             (max_el, min_el) = minmax_loop v 0 (Num 0, Num 0)
         in case set_loop eq0 v max_el min_el 0 of
              Inl e \<Rightarrow> Inl e
            | Inr eq' \<Rightarrow> Inr (Undefined, eq')))"

text \<open>The assignment \<open>eq.curve = v\<close> runs the setter and discards what it returns.\<close>

definition assign_curve :: "equalizer \<Rightarrow> jsval list \<Rightarrow> (js_error \<times> equalizer) + equalizer" where
  "assign_curve eq v = (case curve_set eq v of Inl e \<Rightarrow> Inl e | Inr (r, eq') \<Rightarrow> Inr eq')"

text \<open>The range setter stores the range and re-assigns the stored curve to itself.\<close>

definition range_set :: "equalizer \<Rightarrow> jsval \<Rightarrow> (js_error \<times> equalizer) + (jsval \<times> equalizer)" where
  "range_set eq r =
     (let eq1 = eq\<lparr>param_range := r\<rparr> in
      case assign_curve eq1 (param_curve eq1) of
        Inl e \<Rightarrow> Inl e
      | Inr eq' \<Rightarrow> Inr (Undefined, eq'))"

definition assign_range :: "equalizer \<Rightarrow> jsval \<Rightarrow> (js_error \<times> equalizer) + equalizer" where
  "assign_range eq r = (case range_set eq r of Inl e \<Rightarrow> Inl e | Inr (x, eq') \<Rightarrow> Inr eq')"

text \<open>\<open>eq.range = r\<close> after an earlier assignment; an earlier error stops the sequence.\<close>

definition then_assign_range ::
    "(js_error \<times> equalizer) + equalizer \<Rightarrow> jsval \<Rightarrow> (js_error \<times> equalizer) + equalizer" where
  "then_assign_range res r = (case res of Inl e \<Rightarrow> Inl e | Inr eq \<Rightarrow> assign_range eq r)"

text \<open>The filter gains an assignment leaves behind, or the error it raised.\<close>

definition gains_of :: "(js_error \<times> equalizer) + equalizer \<Rightarrow> js_error + real list" where
  "gains_of r = (case r of Inl (e, eq) \<Rightarrow> Inl e | Inr eq \<Rightarrow> Inr (filter_gain eq))"

text \<open>The equalizer that \<open>new Equalizer(context, {curve: [0, ..., 0], range: r})\<close> builds.\<close>

definition flat_equalizer :: "jsval \<Rightarrow> equalizer" where
  "flat_equalizer r =
     \<lparr>normalize = True, param_curve = replicate 40 (Num 0), param_range = r,
      filter_gain = replicate 40 0\<rparr>"

text \<open>What holds of every equalizer the constructor has built and the setters have
  updated: normalisation is on and there are 40 filters.\<close>

definition constructed :: "equalizer \<Rightarrow> bool" where
  "constructed eq = (normalize eq \<and> length (filter_gain eq) = 40)"

text \<open>A stored curve value that is a number of the interval \<open>[-1, 1]\<close>.\<close>

definition in_unit_interval :: "jsval \<Rightarrow> bool" where
  "in_unit_interval v = (case v of Num n \<Rightarrow> - 1 \<le> n \<and> n \<le> 1 | _ \<Rightarrow> False)"

text \<open>The equalizer an assignment leaves behind, whether it returned or raised.\<close>

definition state_after :: "(js_error \<times> equalizer) + equalizer \<Rightarrow> equalizer" where
  "state_after res = (case res of Inl (e, eq) \<Rightarrow> eq | Inr eq \<Rightarrow> eq)"

text \<open>A curve of two huge doubles of opposite sign, \<open>2^1023\<close> and \<open>-2^1023\<close>, and 38
  zeros.\<close>

definition curve_huge :: "real list" where
  "curve_huge = 2 ^ 1023 # - (2 ^ 1023) # replicate 38 0"

text \<open>A curve of positive values: 4 in band 0 and 2 in the 39 other bands.\<close>

definition curve_a :: "real list" where
  "curve_a = 4 # replicate 39 2"

subsection \<open>The normalisation as the specification words it\<close>

definition spec_min_el :: "real list \<Rightarrow> real" where
  "spec_min_el curve = min 0 (Min (set curve))"

definition spec_max_el :: "real list \<Rightarrow> real" where
  "spec_max_el curve = max 0 (Max (set curve))"

definition spec_normalized :: "real list \<Rightarrow> real \<Rightarrow> real" where
  "spec_normalized curve x =
     (x - spec_min_el curve) / (spec_max_el curve - spec_min_el curve) * 2 - 1"

text \<open>The gain of a band as the specification words it: \<open>range * 5 * normalized\<close>.\<close>

definition spec_gain :: "real \<Rightarrow> real list \<Rightarrow> real \<Rightarrow> real" where
  "spec_gain r curve x = r * 5 * spec_normalized curve x"

section \<open>Strings, paths and files\<close>

text \<open>\<open>s.split(c)\<close> for a one-character separator: never an empty array.\<close>

fun split_on :: "char \<Rightarrow> string \<Rightarrow> string list" where
  "split_on c [] = [[]]"
| "split_on c (x # xs) =
     (if x = c then [] # split_on c xs
      else (case split_on c xs of [] \<Rightarrow> [[x]] | y # ys \<Rightarrow> (x # y) # ys))"

text \<open>\<open>s.endsWith(e)\<close>.\<close>

definition ends_with :: "string \<Rightarrow> string \<Rightarrow> bool" where
  "ends_with s e = (length e \<le> length s \<and> drop (length s - length e) s = e)"

text \<open>\<open>xs[i]\<close> on an array of strings (\<open>None\<close> is \<open>undefined\<close>), and \<open>xs.pop()\<close> as far as
  its value goes.\<close>

definition nth_or_undefined :: "string list \<Rightarrow> nat \<Rightarrow> string option" where
  "nth_or_undefined xs i = (if i < length xs then Some (xs ! i) else None)"

definition pop :: "string list \<Rightarrow> string option" where
  "pop xs = (if xs = [] then None else Some (last xs))"

text \<open>A value interpolated into a template literal: \<open>undefined\<close> prints as the word.\<close>

definition interpolate :: "string option \<Rightarrow> string" where
  "interpolate v = (case v of None \<Rightarrow> ''undefined'' | Some s \<Rightarrow> s)"

text \<open>\<open>path.basename(file, ext)\<close> of Node.js, on the two kinds of argument the scripts
  pass: a directory entry (a name without \<open>/\<close>), and a path that ends in \<open>/name\<close>. A
  name equal to the extension gives the empty string in the first case and is kept in the
  second.\<close>

definition basename_entry :: "string \<Rightarrow> string \<Rightarrow> string" where
  "basename_entry name ext =
     (if ext \<noteq> [] \<and> ends_with name ext then take (length name - length ext) name else name)"

definition basename_in_dir :: "string \<Rightarrow> string \<Rightarrow> string" where
  "basename_in_dir name ext =
     (if ext \<noteq> [] \<and> ends_with name ext \<and> name \<noteq> ext
      then take (length name - length ext) name else name)"

text \<open>\<open>path.join(dir, rest)\<close> for a directory and a relative path that need no
  normalisation (no empty, \<open>.\<close> or \<open>..\<close> segment).\<close>

definition path_join :: "string \<Rightarrow> string \<Rightarrow> string" where
  "path_join dir rest = dir @ ''/'' @ rest"

text \<open>The files on disk, by path, with their contents. Directories are not entries:
  where the server writes a file it has made the directory first.\<close>

type_synonym filesystem = "string \<Rightarrow> string option"

definition existsSync :: "filesystem \<Rightarrow> string \<Rightarrow> bool" where
  "existsSync fs p = (fs p \<noteq> None)"

section \<open>Job derivation (prepare_data.js)\<close>

text \<open>One entry of \<open>processingData\<close>. The equalizer script names the second and third
  field \<open>eqId\<close> and \<open>eqParams\<close>, the reverb script \<open>reverbId\<close> and \<open>reverbParams\<close>.\<close>

record job =
  audioFile :: string
  presetId :: "string option"
  presetParams :: "jsval list"
  outputId :: string

text \<open>A preset file of the preset directory: its name and the \<open>param_values\<close> of its
  parsed contents.\<close>

type_synonym preset_file = "string \<times> jsval list"

definition preset_id :: "string \<Rightarrow> string option" where
  "preset_id file = nth_or_undefined (split_on CHR ''_'' (basename_entry file ''.json'')) 1"

definition eq_output_id :: "string option \<Rightarrow> string \<Rightarrow> string" where
  "eq_output_id eqId audioName = ''eq_'' @ interpolate eqId @ ''/'' @ audioName"

definition reverb_output_id :: "string option \<Rightarrow> string \<Rightarrow> string" where
  "reverb_output_id reverbId audioName = ''reverb_'' @ interpolate reverbId @ ''/'' @ audioName"

text \<open>The equalizer script: for every audio file and every preset, skip the pair whose
  output file exists, push a job otherwise. The accumulator is
  \<open>(processingData, skippedFiles)\<close>; \<open>audio\<close> is the entry name of the audio file.\<close>

fun eq_preset_loop ::
    "filesystem \<Rightarrow> string \<Rightarrow> string \<Rightarrow> preset_file list \<Rightarrow> job list \<times> string list
      \<Rightarrow> job list \<times> string list" where
  "eq_preset_loop fs outputDir audio [] acc = acc"
| "eq_preset_loop fs outputDir audio ((eqFile, param_values) # rest) (processingData, skippedFiles) =
     (let audioName = basename_in_dir audio ''.wav'';
          eqId = preset_id eqFile;
          outputFilePath = path_join outputDir (eq_output_id eqId audioName @ ''.wav'')
      in if existsSync fs outputFilePath
         then eq_preset_loop fs outputDir audio rest
                (processingData, skippedFiles @ [eq_output_id eqId audioName @ ''.wav''])
         else eq_preset_loop fs outputDir audio rest
                (processingData @
                   [\<lparr>audioFile = ''/audio/'' @ audio, presetId = eqId,
                     presetParams = param_values, outputId = eq_output_id eqId audioName\<rparr>],
                 skippedFiles))"

fun eq_audio_loop ::
    "filesystem \<Rightarrow> string \<Rightarrow> string list \<Rightarrow> preset_file list \<Rightarrow> job list \<times> string list
      \<Rightarrow> job list \<times> string list" where
  "eq_audio_loop fs outputDir [] eqFiles acc = acc"
| "eq_audio_loop fs outputDir (audio # rest) eqFiles acc =
     eq_audio_loop fs outputDir rest eqFiles (eq_preset_loop fs outputDir audio eqFiles acc)"

text \<open>\<open>audioDir\<close> and \<open>eqDir\<close> are given by their listings (\<open>readdirSync\<close>).\<close>

definition prepare_eq ::
    "filesystem \<Rightarrow> string list \<Rightarrow> preset_file list \<Rightarrow> string \<Rightarrow> job list \<times> string list" where
  "prepare_eq fs audioDir eqDir outputDir =
     (let audioFiles = filter (\<lambda>file. ends_with file ''.wav'') audioDir;
          eqFiles = filter (\<lambda>(file, params). ends_with file ''.json'') eqDir
      in eq_audio_loop fs outputDir audioFiles eqFiles ([], []))"

text \<open>The reverb script: one audio file (\<open>audio\<close> is the last component of its path),
  every preset, no look at the output directory.\<close>

fun reverb_preset_loop :: "string \<Rightarrow> preset_file list \<Rightarrow> job list \<Rightarrow> job list" where
  "reverb_preset_loop audio [] processingData = processingData"
| "reverb_preset_loop audio ((reverbFile, param_values) # rest) processingData =
     (let audioName = basename_in_dir audio ''.wav'';
          reverbId = preset_id reverbFile
      in reverb_preset_loop audio rest
           (processingData @
              [\<lparr>audioFile = ''/audio/'' @ audio, presetId = reverbId,
                presetParams = param_values, outputId = reverb_output_id reverbId audioName\<rparr>]))"

definition prepare_reverb :: "string \<Rightarrow> preset_file list \<Rightarrow> job list" where
  "prepare_reverb audio reverbDir =
     (let reverbFiles = filter (\<lambda>(file, params). ends_with file ''.json'') reverbDir
      in reverb_preset_loop audio reverbFiles [])"

subsection \<open>The derivation as the specification words it\<close>

text \<open>The job of one (source, preset) pair, and whether its output file exists.\<close>

definition eq_job_of :: "string \<Rightarrow> preset_file \<Rightarrow> job" where
  "eq_job_of audio p =
     \<lparr>audioFile = ''/audio/'' @ audio, presetId = preset_id (fst p), presetParams = snd p,
      outputId = eq_output_id (preset_id (fst p)) (basename_in_dir audio ''.wav'')\<rparr>"

definition reverb_job_of :: "string \<Rightarrow> preset_file \<Rightarrow> job" where
  "reverb_job_of audio p =
     \<lparr>audioFile = ''/audio/'' @ audio, presetId = preset_id (fst p), presetParams = snd p,
      outputId = reverb_output_id (preset_id (fst p)) (basename_in_dir audio ''.wav'')\<rparr>"

definition eq_output_exists :: "filesystem \<Rightarrow> string \<Rightarrow> string \<Rightarrow> preset_file \<Rightarrow> bool" where
  "eq_output_exists fs outputDir audio p =
     existsSync fs (path_join outputDir (outputId (eq_job_of audio p) @ ''.wav''))"

text \<open>The cartesian product of sources and presets, in order, without the pairs that
  \<open>done\<close> holds of.\<close>

definition product_without ::
    "(string \<Rightarrow> preset_file \<Rightarrow> bool) \<Rightarrow> (string \<Rightarrow> preset_file \<Rightarrow> job)
      \<Rightarrow> string list \<Rightarrow> preset_file list \<Rightarrow> job list" where
  "product_without done mk sources presets =
     concat (map (\<lambda>a. map (mk a) (filter (\<lambda>p. \<not> done a p) presets)) sources)"

definition wav_files :: "string list \<Rightarrow> string list" where
  "wav_files dir = filter (\<lambda>file. ends_with file ''.wav'') dir"

definition json_files :: "preset_file list \<Rightarrow> preset_file list" where
  "json_files dir = filter (\<lambda>(file, params). ends_with file ''.json'') dir"

text \<open>A directory listing: no entry name contains \<open>/\<close>.\<close>

definition listing :: "preset_file list \<Rightarrow> bool" where
  "listing dir = list_all (\<lambda>p. CHR ''/'' \<notin> set (fst p)) dir"

section \<open>The batch page (process_audio.html)\<close>

text \<open>
  What the page does to the outside, in order: console output, calls of \<open>processAudio\<close>
  (one render each), calls of \<open>saveToServer\<close>, and \<open>POST /complete\<close>. \<open>SkipSummary\<close> stands
  for the closing console lines that count and list the skipped files. The progress bar and
  the status line, which \<open>updateProgress\<close> redraws from the counters, are not events.
\<close>

datatype event =
    ConsoleError string
  | ConsoleLog string
  | SkipSummary "string list"
  | ProcessAudio string
  | SaveToServer string
  | PostComplete

text \<open>What \<open>GET /check-file?id=...\<close> does for the page: the request or the parsing of its
  answer fails, or an object arrives whose \<open>exists\<close> is a boolean or is missing.\<close>

datatype probe_result = ProbeFailed | ProbeReplied "bool option"

text \<open>How the render of a job ends: with a rendered buffer, with a failure to fetch or
  decode the audio, with a failure of the offline rendering, or with an exception before
  any of it.\<close>

datatype render_result = Rendered | AudioLoadingError | RenderingError | ProcessingError

text \<open>The outside of the page: the answer to each probe, and the end of each render.\<close>

record world =
  probe :: "string \<Rightarrow> probe_result"
  renders :: "job \<Rightarrow> render_result"

record page =
  totalJobs :: nat
  completedJobs :: nat
  skippedJobs :: nat
  skippedFiles :: "string list"
  events :: "event list"

definition emit :: "event list \<Rightarrow> page \<Rightarrow> page" where
  "emit es st = st\<lparr>events := events st @ es\<rparr>"

text \<open>\<open>checkFileExists\<close>: the \<open>catch\<close> logs the error and returns \<open>false\<close>. The value
  returned is tested by \<open>if (exists)\<close>, where a missing \<open>exists\<close> counts as false.\<close>

definition checkFileExists :: "world \<Rightarrow> string \<Rightarrow> bool \<times> event list" where
  "checkFileExists w outputId' =
     (case probe w outputId' of
        ProbeFailed \<Rightarrow> (False, [ConsoleError ''Error checking file existence:''])
      | ProbeReplied None \<Rightarrow> (False, [])
      | ProbeReplied (Some b) \<Rightarrow> (b, []))"

text \<open>\<open>processAudio\<close>: on success the buffer is handed to \<open>saveToServer\<close> and
  \<open>completedJobs\<close> is incremented; on failure the promise is rejected. The result says
  whether the promise was fulfilled.\<close>

definition processAudio :: "world \<Rightarrow> job \<Rightarrow> page \<Rightarrow> bool \<times> page" where
  "processAudio w j st =
     (let st1 = emit [ProcessAudio (outputId j)] st in
      case renders w j of
        Rendered \<Rightarrow>
          (True, (emit [SaveToServer (outputId j)] st1)\<lparr>completedJobs := Suc (completedJobs st1)\<rparr>)
      | AudioLoadingError \<Rightarrow> (False, emit [ConsoleError ''Audio loading error:''] st1)
      | RenderingError \<Rightarrow> (False, emit [ConsoleError ''Rendering error:''] st1)
      | ProcessingError \<Rightarrow> (False, emit [ConsoleError ''Processing error:''] st1))"

text \<open>\<open>Promise.all(jobs.map(processAudio))\<close>: every job of the wave is started and runs to its
  end; the result is fulfilled when all of them are. The jobs of a wave run concurrently;
  the model takes them in the order of the array.\<close>

fun promise_all :: "world \<Rightarrow> job list \<Rightarrow> page \<Rightarrow> bool \<times> page" where
  "promise_all w [] st = (True, st)"
| "promise_all w (j # js) st =
     (let (ok, st1) = processAudio w j st;
          (oks, st2) = promise_all w js st1
      in (ok \<and> oks, st2))"

text \<open>The callback of \<open>saveToServer\<close>, run when the answer to one \<open>POST /save\<close> arrives, at a
  time the page does not control. It is the only place where the equalizer page posts
  \<open>/complete\<close>.\<close>

definition save_callback_eq :: "page \<Rightarrow> page" where
  "save_callback_eq st =
     (if completedJobs st \<ge> totalJobs st then emit [PostComplete] st else st)"

definition save_callback_reverb :: "page \<Rightarrow> page" where
  "save_callback_reverb st =
     (if completedJobs st + skippedJobs st \<ge> totalJobs st then emit [PostComplete] st else st)"

subsection \<open>The equalizer page\<close>

text \<open>\<open>processBatch\<close> of the equalizer page: waves of 8, no look at existing files. A
  rejected wave rejects \<open>processBatch\<close> (\<open>False\<close>) and the later waves never start.\<close>

function eq_wave_loop :: "world \<Rightarrow> job list \<Rightarrow> nat \<Rightarrow> page \<Rightarrow> bool \<times> page" where
  "eq_wave_loop w batchData i st =
     (if i < length batchData then
        (let batch = take 8 (drop i batchData);
             (ok, st1) = promise_all w batch st
         in if ok then eq_wave_loop w batchData (i + 8) st1 else (False, st1))
      else (True, st))"
  by pat_completeness auto
termination
  by (relation "measure (\<lambda>(w, batchData, i, st). length batchData - i)") auto

declare eq_wave_loop.simps [simp del]

definition processBatch_eq :: "world \<Rightarrow> job list \<Rightarrow> bool \<times> page" where
  "processBatch_eq w batchData =
     eq_wave_loop w batchData 0
       \<lparr>totalJobs = length batchData, completedJobs = 0, skippedJobs = 0, skippedFiles = [],
        events = []\<rparr>"

subsection \<open>The reverb page\<close>

text \<open>The first loop over a wave: probe every job in turn, count and log the ones whose
  file exists, collect the others in \<open>jobsToProcess\<close>.\<close>

fun check_loop :: "world \<Rightarrow> job list \<Rightarrow> job list \<times> page \<Rightarrow> job list \<times> page" where
  "check_loop w [] acc = acc"
| "check_loop w (j # js) (jobsToProcess, st) =
     (let (exists, es) = checkFileExists w (outputId j);
          st1 = emit es st
      in if exists
         then check_loop w js
                (jobsToProcess,
                 (emit [ConsoleLog (''Skipping '' @ outputId j @ '' - already processed'')] st1)
                   \<lparr>skippedJobs := Suc (skippedJobs st1),
                    skippedFiles := skippedFiles st1 @ [outputId j]\<rparr>)
         else check_loop w js (jobsToProcess @ [j], st1))"

function reverb_wave_loop :: "world \<Rightarrow> job list \<Rightarrow> nat \<Rightarrow> page \<Rightarrow> bool \<times> page" where
  "reverb_wave_loop w batchData i st =
     (if i < length batchData then
        (let batch = take 5 (drop i batchData);
             (jobsToProcess, st1) = check_loop w batch ([], st);
             (ok, st2) = promise_all w jobsToProcess st1
         in if ok then reverb_wave_loop w batchData (i + 5) st2 else (False, st2))
      else (True, st))"
  by pat_completeness auto
termination
  by (relation "measure (\<lambda>(w, batchData, i, st). length batchData - i)") auto

declare reverb_wave_loop.simps [simp del]

text \<open>After the waves: log the skipped files when there are any, and when everything is
  completed or skipped, post \<open>/complete\<close>.\<close>

definition processBatch_reverb :: "world \<Rightarrow> job list \<Rightarrow> bool \<times> page" where
  "processBatch_reverb w batchData =
     (case reverb_wave_loop w batchData 0
             \<lparr>totalJobs = length batchData, completedJobs = 0, skippedJobs = 0, skippedFiles = [],
              events = []\<rparr> of
        (False, st) \<Rightarrow> (False, st)
      | (True, st) \<Rightarrow>
          (let st1 = (if skippedFiles st \<noteq> [] then emit [SkipSummary (skippedFiles st)] st else st)
           in (True, if completedJobs st1 + skippedJobs st1 \<ge> totalJobs st1
                     then emit [PostComplete] st1 else st1)))"

text \<open>The number of renders and of completion signals in a run of the page.\<close>

definition render_count :: "page \<Rightarrow> nat" where
  "render_count st = length (filter (\<lambda>e. case e of ProcessAudio x \<Rightarrow> True | _ \<Rightarrow> False) (events st))"

definition complete_count :: "page \<Rightarrow> nat" where
  "complete_count st = length (filter (\<lambda>e. e = PostComplete) (events st))"

text \<open>The server's \<open>/check-file\<close> seen from the page, when nothing fails on the way and the
  id arrives as it was sent.\<close>

definition probe_of_files :: "filesystem \<Rightarrow> string \<Rightarrow> string \<Rightarrow> probe_result" where
  "probe_of_files fs outputDir ident =
     (if ident = [] then ProbeReplied None
      else ProbeReplied (Some (existsSync fs (path_join outputDir (ident @ ''.wav'')))))"

text \<open>The console line of a skipped job.\<close>

definition skip_log :: "job \<Rightarrow> event" where
  "skip_log j = ConsoleLog (''Skipping '' @ outputId j @ '' - already processed'')"

subsection \<open>Concrete runs\<close>

text \<open>A disk without output files; the disk after a first run on the source \<open>x.wav\<close> and
  the preset 1 has succeeded; a world in which that disk answers the probes and every
  render succeeds; a world in which every probe fails.\<close>

definition no_files :: filesystem where
  "no_files = (\<lambda>p. None)"

definition rendered_files :: filesystem where
  "rendered_files =
     (\<lambda>p. if p = ''out/eq_1/x.wav'' then Some ''RIFF''
          else if p = ''out/reverb_1/x.wav'' then Some ''RIFF'' else None)"

definition rerun_world :: world where
  "rerun_world = \<lparr>probe = probe_of_files rendered_files ''out'', renders = (\<lambda>j. Rendered)\<rparr>"

definition failing_probe_world :: world where
  "failing_probe_world = \<lparr>probe = (\<lambda>ident. ProbeFailed), renders = (\<lambda>j. Rendered)\<rparr>"

text \<open>The reverb job of the source \<open>x.wav\<close> and the preset file \<open>reverb_1.json\<close>.\<close>

definition job_x1 :: job where
  "job_x1 = reverb_job_of ''x.wav'' (''reverb_1.json'', [])"

section \<open>The server (server.js)\<close>

record server =
  files :: filesystem
  totalSaved :: nat
  totalSkipped :: nat
  isComplete :: bool

datatype response = BadRequest string | Saved string

text \<open>\<open>POST /save\<close> of the reverb server, with \<open>id\<close> and \<open>data\<close> of the request body
  (\<open>None\<close> when absent; an empty string is falsy too). The contents written are the
  decoded \<open>data\<close>, represented by \<open>data\<close> itself. The directory of the output file is made
  when missing, so the write cannot fail for want of it.\<close>

definition save_reverb ::
    "string \<Rightarrow> string \<Rightarrow> server \<Rightarrow> string option \<Rightarrow> string option \<Rightarrow> response \<times> server" where
  "save_reverb outputDir reverbDir srv id' data =
     (case (id', data) of
        (Some ident, Some d) \<Rightarrow>
          (if ident = [] \<or> d = [] then (BadRequest ''Missing id or data'', srv)
           else
             (let filePath = path_join outputDir (ident @ ''.wav'');
                  files1 = (files srv)(filePath \<mapsto> d);
                  reverbId = pop (split_on CHR ''_'' ident);
                  reverbInfoPath = path_join outputDir (ident @ ''_reverb_info.json'');
                  reverbSourcePath = path_join reverbDir (''reverb_'' @ interpolate reverbId @ ''.json'');
                  files2 = (case files1 reverbSourcePath of
                              Some preset \<Rightarrow> files1(reverbInfoPath \<mapsto> preset)
                            | None \<Rightarrow> files1)
              in (Saved filePath, srv\<lparr>files := files2, totalSaved := Suc (totalSaved srv)\<rparr>)))
      | _ \<Rightarrow> (BadRequest ''Missing id or data'', srv))"

text \<open>A server whose preset directory \<open>presets\<close> holds \<open>reverb_1.json\<close>, before any save.\<close>

definition preset_on_disk :: server where
  "preset_on_disk =
     \<lparr>files = (\<lambda>p. if p = ''presets/reverb_1.json'' then Some ''{param_values: [...]}'' else None),
      totalSaved = 0, totalSkipped = 0, isComplete = False\<rparr>"

section \<open>The WAV encoder (bufferToWave)\<close>


type_synonym bytes = "8 word list"

text \<open>The setters of a DataView over the whole buffer, little-endian. The value is
  reduced modulo \<open>2^8\<close>, \<open>2^16\<close> or \<open>2^32\<close>; a write beyond the end raises RangeError.\<close>

definition setUint8 :: "nat \<Rightarrow> int \<Rightarrow> bytes \<Rightarrow> js_error + bytes" where
  "setUint8 off v view =
     (if off + 1 \<le> length view then Inr (view[off := of_int v]) else Inl RangeError)"



















text \<open>A write that succeeds on every view of \<open>n\<close> bytes and keeps the size.\<close>

definition keeps_size :: "nat \<Rightarrow> (bytes \<Rightarrow> js_error + bytes) \<Rightarrow> bool" where
  "keeps_size n w = (\<forall>view. length view = n \<longrightarrow> (\<exists>view'. w view = Inr view' \<and> length view' = n))"


section \<open>Properties of the equalizer\<close>

subsection \<open>Numbers below the overflow bounds\<close>

lemma float_below_double: "float_overflow < double_overflow"
  by (simp add: float_overflow_def double_overflow_def)

lemma small_float: "\<bar>x\<bar> \<le> 32768 \<Longrightarrow> \<bar>x\<bar> < float_overflow"
  by (simp add: float_overflow_def)

lemma small_double: "\<bar>x\<bar> \<le> 32768 \<Longrightarrow> \<bar>x\<bar> < double_overflow"
  by (simp add: double_overflow_def)

lemma small_numbers:
  "(1 :: real) < double_overflow" "(2 :: real) < double_overflow"
  "(4 :: real) < double_overflow" "(5 :: real) < double_overflow"
  "(5 :: real) < float_overflow" "(10 :: real) < float_overflow"
  by (simp_all add: float_overflow_def double_overflow_def)

lemma single_precision_range:
  assumes "\<bar>m\<bar> < 2 ^ 24" and "e \<le> 253"
  shows "\<bar>single_precision m e\<bar> < float_overflow"
proof -
  have "\<bar>m\<bar> \<le> 2 ^ 24 - 1"
    using assms(1) by simp
  then have "\<bar>of_int m :: real\<bar> \<le> of_int (2 ^ 24 - 1)"
    unfolding of_int_abs [symmetric] by (rule of_int_le_iff [THEN iffD2])
  then have m: "\<bar>of_int m :: real\<bar> \<le> 2 ^ 24 - 1"
    by simp
  have p: "(2 :: real) ^ e \<le> 2 ^ 253"
    using assms(2) by (intro power_increasing) simp_all
  have "\<bar>of_int m :: real\<bar> * 2 ^ e \<le> (2 ^ 24 - 1) * 2 ^ 253"
    using m p by (intro mult_mono) simp_all
  then have "\<bar>of_int m * 2 ^ e / 2 ^ 149 :: real\<bar> \<le> (2 ^ 24 - 1) * 2 ^ 253 / 2 ^ 149"
    by (simp add: abs_mult divide_le_cancel)
  also have "(2 ^ 24 - 1) * 2 ^ 253 / 2 ^ 149 < (2 ^ 128 - 2 ^ 103 :: real)"
    by simp
  finally show ?thesis
    by (simp add: single_precision_def float_overflow_def)
qed

lemma curve_a_floats: "\<forall>x \<in> set curve_a. \<bar>x\<bar> < float_overflow"
  by (simp add: curve_a_def float_overflow_def)

lemma huge_overflows:
  "double_overflow \<le> 2 ^ 1023 + (2 ^ 1023 :: real)" "(2 ^ 1023 :: real) < double_overflow"
  by (simp_all add: double_overflow_def)

lemma to_double_Num: "\<bar>r\<bar> < double_overflow \<Longrightarrow> to_double r = Num r"
  by (auto simp: to_double_def)

lemma to_double_Infinity: "double_overflow \<le> r \<Longrightarrow> to_double r = Infinity"
  by (simp add: to_double_def)

lemma audio_param_float_Num: "\<bar>x\<bar> < float_overflow \<Longrightarrow> audio_param_float (Num x) = Inr x"
  by (simp add: audio_param_float_def)

lemma js_mul_Undefined: "js_mul a Undefined = NaN"
  by (cases a) simp_all

lemma js_mul_NaN: "js_mul a NaN = NaN"
  by (cases a) simp_all

subsection \<open>The loops on a curve of numbers\<close>

lemma js_index_map_Num: "i < length xs \<Longrightarrow> js_index (map Num xs) i = Num (xs ! i)"
  by (simp add: js_index_def)

lemma ctor_loop_Num:
  assumes "\<forall>x \<in> set xs. \<bar>x\<bar> < float_overflow"
  shows "40 \<le> length xs \<Longrightarrow> i \<le> 40 \<Longrightarrow>
   ctor_loop (map Num xs) i fs = Inr (fs @ take (40 - i) (drop i xs))"
proof (induction "40 - i" arbitrary: i fs)
  case 0
  then show ?case by (simp add: ctor_loop.simps)
next
  case (Suc n)
  then have lt: "i < 40" and n: "n = 40 - Suc i" by simp_all
  have idx: "js_index (map Num xs) i = Num (xs ! i)"
    using Suc.prems lt by (simp add: js_index_map_Num)
  have "\<bar>xs ! i\<bar> < float_overflow"
    using assms Suc.prems lt by simp
  then have "ctor_loop (map Num xs) i fs = ctor_loop (map Num xs) (Suc i) (fs @ [xs ! i])"
    using lt by (subst ctor_loop.simps) (simp add: idx audio_param_float_Num)
  also have "\<dots> = Inr ((fs @ [xs ! i]) @ take (40 - Suc i) (drop (Suc i) xs))"
    using Suc.hyps(1)[OF n] Suc.prems lt by simp
  also have "(fs @ [xs ! i]) @ take (40 - Suc i) (drop (Suc i) xs) = fs @ take (40 - i) (drop i xs)"
  proof -
    have "drop i xs = xs ! i # drop (Suc i) xs"
      using Suc.prems lt by (simp add: Cons_nth_drop_Suc)
    moreover have "40 - i = Suc (40 - Suc i)" using lt by simp
    ultimately show ?thesis by simp
  qed
  finally show ?case .
qed

lemma Equalizer_Num:
  "\<forall>x \<in> set xs. \<bar>x\<bar> < float_overflow \<Longrightarrow> 40 \<le> length xs \<Longrightarrow>
   Equalizer (Some (map Num xs)) r =
     Inr \<lparr>normalize = True, param_curve = map Num xs,
          param_range = (if r = Undefined then Num 1 else r), filter_gain = take 40 xs\<rparr>"
  by (simp add: Equalizer_def ctor_loop_Num)

lemma Equalizer_flat:
  "r \<noteq> Undefined \<Longrightarrow> Equalizer (Some (replicate 40 (Num 0))) r = Inr (flat_equalizer r)"
  using Equalizer_Num [of "replicate 40 0" r] small_float [of 0]
  by (simp add: flat_equalizer_def)

lemma constructed_flat: "constructed (flat_equalizer r)"
  by (simp add: constructed_def flat_equalizer_def)

lemma minmax_loop_Num:
  "length xs = 40 \<Longrightarrow> i \<le> 40 \<Longrightarrow>
   minmax_loop (map Num xs) i (Num M, Num m)
     = (Num (fold max (drop i xs) M), Num (fold min (drop i xs) m))"
proof (induction "40 - i" arbitrary: i M m)
  case 0
  then show ?case by (simp add: minmax_loop.simps)
next
  case (Suc n)
  then have lt: "i < 40" and n: "n = 40 - Suc i" by simp_all
  have idx: "js_index (map Num xs) i = Num (xs ! i)"
    using Suc.prems lt by (simp add: js_index_map_Num)
  have dr: "drop i xs = xs ! i # drop (Suc i) xs"
    using Suc.prems lt by (simp add: Cons_nth_drop_Suc)
  have "minmax_loop (map Num xs) i (Num M, Num m)
      = minmax_loop (map Num xs) (Suc i) (Num (max (xs ! i) M), Num (min (xs ! i) m))"
    using lt by (subst minmax_loop.simps) (auto simp: idx Let_def max_def min_def)
  also have "\<dots> = (Num (fold max (drop (Suc i) xs) (max (xs ! i) M)),
                    Num (fold min (drop (Suc i) xs) (min (xs ! i) m)))"
    using Suc.hyps(1)[OF n] Suc.prems lt by simp
  finally show ?case by (simp add: dr)
qed

lemma fold_max_spec: "xs \<noteq> [] \<Longrightarrow> fold max xs 0 = spec_max_el xs"
proof -
  assume ne: "xs \<noteq> []"
  have "fold max xs 0 = Max (set (0 # xs))" by (rule Max.set_eq_fold [symmetric])
  also have "\<dots> = max 0 (Max (set xs))" using ne by simp
  finally show ?thesis by (simp add: spec_max_el_def)
qed

lemma fold_min_spec: "xs \<noteq> [] \<Longrightarrow> fold min xs 0 = spec_min_el xs"
proof -
  assume ne: "xs \<noteq> []"
  have "fold min xs 0 = Min (set (0 # xs))" by (rule Min.set_eq_fold [symmetric])
  also have "\<dots> = min 0 (Min (set xs))" using ne by simp
  finally show ?thesis by (simp add: spec_min_el_def)
qed

lemma minmax_loop_spec:
  assumes "length xs = 40"
  shows "minmax_loop (map Num xs) 0 (Num 0, Num 0) = (Num (spec_max_el xs), Num (spec_min_el xs))"
proof -
  have "xs \<noteq> []" using assms by auto
  then show ?thesis
    using minmax_loop_Num [OF assms, of 0 0 0] by (simp add: fold_max_spec fold_min_spec)
qed

lemma spec_min_le_max: "spec_min_el xs \<le> spec_max_el xs"
  by (simp add: spec_min_el_def spec_max_el_def min_def max_def)

lemma spec_bounds:
  assumes "x \<in> set xs"
  shows "spec_min_el xs \<le> x" and "x \<le> spec_max_el xs"
proof -
  have fin: "finite (set xs)" by simp
  have "Min (set xs) \<le> x" using fin assms by (rule Min_le)
  then show "spec_min_el xs \<le> x" by (simp add: spec_min_el_def min_def)
  have "x \<le> Max (set xs)" using fin assms by (rule Max_ge)
  then show "x \<le> spec_max_el xs" by (simp add: spec_max_el_def max_def)
qed

lemma normalize_step:
  assumes "m \<le> x" and "x \<le> M" and "M \<noteq> m" and "M - m < double_overflow"
  shows "js_sub (js_mul (js_div (js_sub (Num x) (Num m)) (js_sub (Num M) (Num m))) (Num 2)) (Num 1)
           = Num ((x - m) / (M - m) * 2 - 1)"
    and "- 1 \<le> (x - m) / (M - m) * 2 - 1" and "(x - m) / (M - m) * 2 - 1 \<le> 1"
proof -
  define q where "q = (x - m) / (M - m)"
  have pos: "0 < M - m" using assms by simp
  have q0: "0 \<le> q" using assms(1) pos by (simp add: q_def)
  have q1: "q \<le> 1" using assms(2) pos by (simp add: q_def divide_le_eq)
  have two: "(2 :: real) < double_overflow" using small_double [of 2] by simp
  have d1: "js_sub (Num x) (Num m) = Num (x - m)"
    using assms by (simp add: to_double_Num)
  have d2: "js_sub (Num M) (Num m) = Num (M - m)"
    using assms pos by (simp add: to_double_Num)
  have d3: "js_div (Num (x - m)) (Num (M - m)) = Num q"
    using pos q0 q1 two by (simp add: q_def [symmetric] to_double_Num)
  have d4: "js_mul (Num q) (Num 2) = Num (q * 2)"
    using q0 q1 two by (simp add: to_double_Num)
  have d5: "js_sub (Num (q * 2)) (Num 1) = Num (q * 2 - 1)"
    using q0 q1 two by (simp add: to_double_Num)
  show "js_sub (js_mul (js_div (js_sub (Num x) (Num m)) (js_sub (Num M) (Num m))) (Num 2)) (Num 1)
           = Num ((x - m) / (M - m) * 2 - 1)"
    unfolding d1 d2 d3 d4 d5 by (simp add: q_def)
  have e: "(x - m) / (M - m) * 2 - 1 = q * 2 - 1" by (simp only: q_def)
  show "- 1 \<le> (x - m) / (M - m) * 2 - 1" unfolding e using q0 by linarith
  show "(x - m) / (M - m) * 2 - 1 \<le> 1" unfolding e using q1 by linarith
qed

lemma push_curve_Num:
  assumes "normalize eq" and "i < length xs" and "m \<le> xs ! i" and "xs ! i \<le> M"
    and "M \<noteq> m" and "M - m < double_overflow"
  shows "push_curve eq (map Num xs) (Num M) (Num m) i
     = param_curve eq @ [Num ((xs ! i - m) / (M - m) * 2 - 1)]"
  using assms(1,2,5) normalize_step(1) [OF assms(3-6)]
  by (simp add: push_curve_def js_index_map_Num Let_def)

lemma gain_step:
  assumes "\<bar>r * 5\<bar> < float_overflow" and "- 1 \<le> n" and "n \<le> 1"
  shows "audio_param_float (js_mul (js_mul (Num r) (Num 5)) (Num n)) = Inr (r * 5 * n)"
proof -
  have "\<bar>r * 5 * n\<bar> \<le> \<bar>r * 5\<bar> * 1"
    unfolding abs_mult [of "r * 5" n] using assms(2,3) by (intro mult_left_mono) auto
  then have f: "\<bar>r * 5 * n\<bar> < float_overflow" using assms(1) by simp
  have "js_mul (Num r) (Num 5) = Num (r * 5)"
    using assms(1) float_below_double by (simp add: to_double_Num)
  moreover have "js_mul (Num (r * 5)) (Num n) = Num (r * 5 * n)"
    using f float_below_double by (simp add: to_double_Num)
  ultimately show ?thesis
    using f by (simp add: audio_param_float_Num)
qed

lemma set_loop_Num:
  assumes "length xs = 40" "normalize eq" "M \<noteq> m" "param_range eq = Num r"
    and "length (filter_gain eq) = 40"
    and "\<forall>x \<in> set xs. m \<le> x \<and> x \<le> M" and "M - m < double_overflow"
    and "\<bar>r * 5\<bar> < float_overflow"
  shows "i \<le> 40 \<Longrightarrow> param_curve eq = map (\<lambda>x. Num ((x - m) / (M - m) * 2 - 1)) (take i xs) \<Longrightarrow>
    filter_gain eq = gs \<Longrightarrow>
    set_loop eq (map Num xs) (Num M) (Num m) i =
      Inr (eq\<lparr>param_curve := map (\<lambda>x. Num ((x - m) / (M - m) * 2 - 1)) xs,
              filter_gain := take i gs @ map (\<lambda>x. r * 5 * ((x - m) / (M - m) * 2 - 1)) (drop i xs)\<rparr>)"
  using assms(2,4,5)
proof (induction "40 - i" arbitrary: i eq gs)
  case 0
  then show ?case using assms(1) by (simp add: set_loop.simps)
next
  case (Suc n)
  then have lt: "i < 40" and n: "n = 40 - Suc i" by simp_all
  let ?nrm = "\<lambda>x. (x - m) / (M - m) * 2 - 1"
  let ?f = "\<lambda>x. Num (?nrm x)"
  let ?g = "r * 5 * ?nrm (xs ! i)"
  define eq1 where "eq1 = eq\<lparr>param_curve := push_curve eq (map Num xs) (Num M) (Num m) i\<rparr>"
  define eq2 where "eq2 = eq1\<lparr>filter_gain := (filter_gain eq1)[i := ?g]\<rparr>"
  have ilen: "i < length xs" using assms(1) lt by simp
  then have mem: "xs ! i \<in> set xs" by simp
  have lo: "m \<le> xs ! i" and hi: "xs ! i \<le> M" using assms(6) mem by auto
  have pc: "param_curve eq1 = map ?f (take (Suc i) xs)"
  proof -
    have "push_curve eq (map Num xs) (Num M) (Num m) i = param_curve eq @ [?f (xs ! i)]"
      using \<open>normalize eq\<close> ilen lo hi assms(3,7) by (rule push_curve_Num)
    then show ?thesis
      using \<open>param_curve eq = _\<close> ilen by (simp add: eq1_def take_Suc_conv_app_nth)
  qed
  have idx: "js_index (param_curve eq1) i = Num (?nrm (xs ! i))"
    using ilen by (simp add: pc js_index_def take_Suc_conv_app_nth nth_append)
  have rg: "param_range eq1 = Num r" using \<open>param_range eq = Num r\<close> by (simp add: eq1_def)
  have fg: "filter_gain eq1 = gs" using \<open>filter_gain eq = gs\<close> by (simp add: eq1_def)
  have len: "length gs = 40"
    using \<open>filter_gain eq = gs\<close> \<open>length (filter_gain eq) = 40\<close> by simp
  have gain: "audio_param_float (js_mul (js_mul (Num r) (Num 5)) (Num (?nrm (xs ! i)))) = Inr ?g"
    using assms(8) normalize_step(2,3) [OF lo hi assms(3,7)] by (rule gain_step)
  have step: "set_loop eq (map Num xs) (Num M) (Num m) i
        = set_loop eq2 (map Num xs) (Num M) (Num m) (Suc i)"
  proof -
    have "set_loop eq (map Num xs) (Num M) (Num m) i =
       (let eq1 = eq\<lparr>param_curve := push_curve eq (map Num xs) (Num M) (Num m) i\<rparr> in
         if length (filter_gain eq1) \<le> i then Inl (TypeError, eq1)
         else
           (case audio_param_float
                   (js_mul (js_mul (param_range eq1) (Num 5)) (js_index (param_curve eq1) i)) of
              Inl e \<Rightarrow> Inl (e, eq1)
            | Inr g \<Rightarrow>
                set_loop (eq1\<lparr>filter_gain := (filter_gain eq1)[i := g]\<rparr>)
                  (map Num xs) (Num M) (Num m) (Suc i)))"
      using lt by (subst set_loop.simps) simp
    also have "\<dots> = set_loop eq2 (map Num xs) (Num M) (Num m) (Suc i)"
      unfolding Let_def eq1_def[symmetric] idx rg gain
      using lt len by (simp add: fg eq2_def)
    finally show ?thesis .
  qed
  have "set_loop eq2 (map Num xs) (Num M) (Num m) (Suc i)
        = Inr (eq2\<lparr>param_curve := map ?f xs,
                filter_gain := take (Suc i) (gs[i := ?g]) @ map (\<lambda>x. r * 5 * ?nrm x) (drop (Suc i) xs)\<rparr>)"
  proof (intro Suc.hyps(1)[OF n])
    show "Suc i \<le> 40" using lt by simp
    show "param_curve eq2 = map ?f (take (Suc i) xs)" by (simp add: eq2_def pc)
    show "filter_gain eq2 = gs[i := ?g]" by (simp add: eq2_def fg)
    show "normalize eq2" using \<open>normalize eq\<close> by (simp add: eq2_def eq1_def)
    show "param_range eq2 = Num r" by (simp add: eq2_def rg)
    show "length (filter_gain eq2) = 40" by (simp add: eq2_def fg len)
  qed
  moreover have "take (Suc i) (gs[i := ?g]) @ map (\<lambda>x. r * 5 * ?nrm x) (drop (Suc i) xs)
        = take i gs @ map (\<lambda>x. r * 5 * ?nrm x) (drop i xs)"
  proof -
    have "drop i xs = xs ! i # drop (Suc i) xs"
      using ilen by (simp add: Cons_nth_drop_Suc)
    moreover have "take (Suc i) (gs[i := ?g]) = take i gs @ [?g]"
      using lt len by (simp add: take_Suc_conv_app_nth)
    ultimately show ?thesis by simp
  qed
  ultimately show ?case
    by (simp add: step eq2_def eq1_def)
qed

text \<open>Whatever the range is, the curve the second loop leaves behind, by returning or by
  raising, is a prefix of the normalised curve.\<close>

lemma set_loop_prefix:
  assumes "length xs = 40" and "M \<noteq> m"
    and "\<forall>x \<in> set xs. m \<le> x \<and> x \<le> M" and "M - m < double_overflow"
  shows "i < 40 \<Longrightarrow> normalize eq \<Longrightarrow>
    param_curve eq = map (\<lambda>x. Num ((x - m) / (M - m) * 2 - 1)) (take i xs) \<Longrightarrow>
    \<exists>k. i < k \<and> k \<le> 40 \<and>
      param_curve (state_after (set_loop eq (map Num xs) (Num M) (Num m) i))
        = map (\<lambda>x. Num ((x - m) / (M - m) * 2 - 1)) (take k xs)"
proof (induction "40 - i" arbitrary: i eq)
  case 0
  then show ?case by simp
next
  case (Suc n)
  let ?f = "\<lambda>x. Num ((x - m) / (M - m) * 2 - 1)"
  let ?run = "\<lambda>eq i. set_loop eq (map Num xs) (Num M) (Num m) i"
  from Suc have lt: "i < 40" and n: "n = 40 - Suc i" by simp_all
  define eq1 where "eq1 = eq\<lparr>param_curve := push_curve eq (map Num xs) (Num M) (Num m) i\<rparr>"
  have ilen: "i < length xs" using assms(1) lt by simp
  then have mem: "xs ! i \<in> set xs" by simp
  have lo: "m \<le> xs ! i" and hi: "xs ! i \<le> M" using assms(3) mem by auto
  have pc: "param_curve eq1 = map ?f (take (Suc i) xs)"
  proof -
    have "push_curve eq (map Num xs) (Num M) (Num m) i = param_curve eq @ [?f (xs ! i)]"
      using \<open>normalize eq\<close> ilen lo hi assms(2,4) by (rule push_curve_Num)
    then show ?thesis
      using \<open>param_curve eq = _\<close> ilen by (simp add: eq1_def take_Suc_conv_app_nth)
  qed
  have unfold: "?run eq i =
         (if length (filter_gain eq1) \<le> i then Inl (TypeError, eq1)
         else
           (case audio_param_float
                   (js_mul (js_mul (param_range eq1) (Num 5)) (js_index (param_curve eq1) i)) of
              Inl e \<Rightarrow> Inl (e, eq1)
            | Inr g \<Rightarrow> ?run (eq1\<lparr>filter_gain := (filter_gain eq1)[i := g]\<rparr>) (Suc i)))"
    unfolding eq1_def using lt by (subst set_loop.simps) (simp add: Let_def)
  consider (stop) "?run eq i = Inl (TypeError, eq1)"
    | (go) g where "?run eq i = ?run (eq1\<lparr>filter_gain := (filter_gain eq1)[i := g]\<rparr>) (Suc i)"
  proof (cases "length (filter_gain eq1) \<le> i")
    case True
    then show ?thesis using unfold stop by simp
  next
    case False
    show ?thesis
    proof (cases "audio_param_float
                   (js_mul (js_mul (param_range eq1) (Num 5)) (js_index (param_curve eq1) i))")
      case (Inl e)
      then have "e = TypeError"
        by (auto simp: audio_param_float_def split: jsval.splits if_splits)
      then show ?thesis using unfold False Inl stop by simp
    next
      case (Inr g)
      then show ?thesis using unfold False go by simp
    qed
  qed
  then show ?case
  proof cases
    case stop
    have "Suc i \<le> 40" using lt by simp
    then show ?thesis
      using stop pc by (auto simp: state_after_def intro!: exI [of _ "Suc i"])
  next
    case (go g)
    define eq2 where "eq2 = eq1\<lparr>filter_gain := (filter_gain eq1)[i := g]\<rparr>"
    have n2: "normalize eq2" using \<open>normalize eq\<close> by (simp add: eq2_def eq1_def)
    have pc2: "param_curve eq2 = map ?f (take (Suc i) xs)" by (simp add: eq2_def pc)
    show ?thesis
    proof (cases "Suc i < 40")
      case True
      obtain k where "Suc i < k" "k \<le> 40"
        "param_curve (state_after (?run eq2 (Suc i))) = map ?f (take k xs)"
        using Suc.hyps(1) [OF n True n2 pc2] by blast
      then show ?thesis
        using go by (auto simp: eq2_def intro!: exI [of _ k])
    next
      case False
      then have "?run eq2 (Suc i) = Inr eq2"
        by (subst set_loop.simps) simp
      moreover have "Suc i \<le> 40" using lt by simp
      ultimately show ?thesis
        using go pc2 by (auto simp: eq2_def state_after_def intro!: exI [of _ "Suc i"])
    qed
  qed
qed

text \<open>On a curve of 40 numbers whose range (with 0) is not degenerate, the setter
  stores the normalised curve and gives band \<open>i\<close> the gain \<open>range * 5 * normalized\<close>.\<close>

lemma assign_curve_Num:
  assumes "length xs = 40" "constructed eq" "param_range eq = Num r"
    and "spec_max_el xs \<noteq> spec_min_el xs"
    and "spec_max_el xs - spec_min_el xs < double_overflow"
    and "\<bar>r * 5\<bar> < float_overflow"
  shows "assign_curve eq (map Num xs) =
     Inr (eq\<lparr>param_curve := map (\<lambda>x. Num (spec_normalized xs x)) xs,
             filter_gain := map (spec_gain r xs) xs\<rparr>)"
proof -
  let ?eq0 = "eq\<lparr>param_curve := []\<rparr>"
  have b: "\<forall>x \<in> set xs. spec_min_el xs \<le> x \<and> x \<le> spec_max_el xs"
    using spec_bounds by blast
  have "set_loop ?eq0 (map Num xs) (Num (spec_max_el xs)) (Num (spec_min_el xs)) 0 =
      Inr (?eq0\<lparr>param_curve := map (\<lambda>x. Num ((x - spec_min_el xs) / (spec_max_el xs - spec_min_el xs) * 2 - 1)) xs,
              filter_gain := take 0 (filter_gain eq) @
                 map (\<lambda>x. r * 5 * ((x - spec_min_el xs) / (spec_max_el xs - spec_min_el xs) * 2 - 1)) (drop 0 xs)\<rparr>)"
    using assms b by (intro set_loop_Num) (simp_all add: constructed_def)
  then show ?thesis
    using assms(1)
    by (simp add: assign_curve_def curve_set_def minmax_loop_spec spec_normalized_def
        spec_gain_def)
qed

text \<open>Whatever the range is, the stored curve after the assignment is a non-empty prefix
  of the normalised curve.\<close>

lemma assign_curve_prefix:
  assumes "length xs = 40" "constructed eq"
    and "spec_max_el xs \<noteq> spec_min_el xs"
    and "spec_max_el xs - spec_min_el xs < double_overflow"
  shows "\<exists>k. 0 < k \<and> k \<le> 40 \<and>
      param_curve (state_after (assign_curve eq (map Num xs)))
        = map (\<lambda>x. Num (spec_normalized xs x)) (take k xs)"
proof -
  let ?eq0 = "eq\<lparr>param_curve := []\<rparr>"
  let ?run = "set_loop ?eq0 (map Num xs) (Num (spec_max_el xs)) (Num (spec_min_el xs)) 0"
  have b: "\<forall>x \<in> set xs. spec_min_el xs \<le> x \<and> x \<le> spec_max_el xs"
    using spec_bounds by blast
  have "\<exists>k. 0 < k \<and> k \<le> 40 \<and> param_curve (state_after ?run)
        = map (\<lambda>x. Num ((x - spec_min_el xs) / (spec_max_el xs - spec_min_el xs) * 2 - 1)) (take k xs)"
    using assms(2) by (intro set_loop_prefix [OF assms(1,3) b assms(4)]) (simp_all add: constructed_def)
  moreover have "state_after (assign_curve eq (map Num xs)) = state_after ?run"
    using assms(1)
    by (simp add: assign_curve_def curve_set_def minmax_loop_spec state_after_def
        split: sum.splits prod.splits)
  ultimately show ?thesis
    by (simp add: spec_normalized_def)
qed

text \<open>The range setter on such an equalizer re-normalises the stored curve.\<close>

lemma assign_range_Num:
  assumes "length xs = 40" "constructed eq" "param_curve eq = map Num xs"
    and "spec_max_el xs \<noteq> spec_min_el xs"
    and "spec_max_el xs - spec_min_el xs < double_overflow"
    and "\<bar>r * 5\<bar> < float_overflow"
  shows "assign_range eq (Num r) =
     Inr (eq\<lparr>param_range := Num r,
             param_curve := map (\<lambda>x. Num (spec_normalized xs x)) xs,
             filter_gain := map (spec_gain r xs) xs\<rparr>)"
proof -
  let ?eq1 = "eq\<lparr>param_range := Num r\<rparr>"
  have "assign_curve ?eq1 (map Num xs) =
     Inr (?eq1\<lparr>param_curve := map (\<lambda>x. Num (spec_normalized xs x)) xs,
             filter_gain := map (spec_gain r xs) xs\<rparr>)"
    using assms by (intro assign_curve_Num) (simp_all add: constructed_def)
  then show ?thesis
    using assms(3) by (simp add: assign_range_def range_set_def Let_def)
qed

text \<open>The all-zero curve is the degenerate one: nothing is pushed, the gain of band 0
  is computed from \<open>undefined\<close>, and the assignment raises TypeError with the stored
  curve already emptied.\<close>

lemma assign_curve_zero_throws:
  assumes "constructed eq"
  shows "assign_curve eq (replicate 40 (Num 0)) = Inl (TypeError, eq\<lparr>param_curve := []\<rparr>)"
proof -
  have mm: "minmax_loop (replicate 40 (Num 0)) 0 (Num 0, Num 0) = (Num 0, Num 0)"
    using minmax_loop_spec [of "replicate 40 0"]
    by (simp add: spec_max_el_def spec_min_el_def)
  have "set_loop (eq\<lparr>param_curve := []\<rparr>) (replicate 40 (Num 0)) (Num 0) (Num 0) 0
      = Inl (TypeError, eq\<lparr>param_curve := []\<rparr>)"
    using assms
    by (subst set_loop.simps)
       (simp add: push_curve_def constructed_def js_index_def audio_param_float_def Let_def
          js_mul_Undefined)
  then show ?thesis
    using mm by (simp add: assign_curve_def curve_set_def)
qed

subsection \<open>What every equalizer satisfies\<close>

lemma ctor_loop_length:
  "ctor_loop c i fs = Inr gs \<Longrightarrow> i \<le> 40 \<Longrightarrow> length gs = length fs + (40 - i)"
proof (induction "40 - i" arbitrary: i fs)
  case 0
  then show ?case by (simp add: ctor_loop.simps)
next
  case (Suc n)
  then have lt: "i < 40" and n: "n = 40 - Suc i" by simp_all
  from Suc.prems(1) lt obtain g where g: "audio_param_float (js_index c i) = Inr g"
    and r: "ctor_loop c (Suc i) (fs @ [g]) = Inr gs"
    by (subst (asm) ctor_loop.simps) (auto split: sum.splits)
  have "length gs = length (fs @ [g]) + (40 - Suc i)"
    using r lt by (intro Suc.hyps(1) [OF n]) simp_all
  then show ?case using lt by simp
qed

lemma Equalizer_constructed: "Equalizer c r = Inr eq \<Longrightarrow> constructed eq"
  by (auto simp: Equalizer_def constructed_def Let_def dest: ctor_loop_length
      split: option.splits sum.splits)

lemma set_loop_keeps:
  "set_loop eq v M m i = Inr eq' \<Longrightarrow>
   normalize eq' = normalize eq \<and> length (filter_gain eq') = length (filter_gain eq)"
proof (induction "40 - i" arbitrary: i eq)
  case 0
  then show ?case by (simp add: set_loop.simps)
next
  case (Suc n)
  then have lt: "i < 40" and n: "n = 40 - Suc i" by simp_all
  define eq1 where "eq1 = eq\<lparr>param_curve := push_curve eq v M m i\<rparr>"
  from Suc.prems lt obtain g
    where r: "set_loop (eq1\<lparr>filter_gain := (filter_gain eq1)[i := g]\<rparr>) v M m (Suc i) = Inr eq'"
    by (subst (asm) set_loop.simps) (auto simp: Let_def eq1_def split: sum.splits if_splits)
  have "normalize eq' = normalize (eq1\<lparr>filter_gain := (filter_gain eq1)[i := g]\<rparr>)
      \<and> length (filter_gain eq') = length (filter_gain (eq1\<lparr>filter_gain := (filter_gain eq1)[i := g]\<rparr>))"
    using r by (rule Suc.hyps(1) [OF n])
  then show ?case by (simp add: eq1_def)
qed

lemma assign_curve_constructed:
  "constructed eq \<Longrightarrow> assign_curve eq v = Inr eq' \<Longrightarrow> constructed eq'"
  by (auto simp: assign_curve_def curve_set_def constructed_def Let_def
      dest!: set_loop_keeps split: if_splits sum.splits prod.splits)

lemma assign_range_constructed:
  "constructed eq \<Longrightarrow> assign_range eq r = Inr eq' \<Longrightarrow> constructed eq'"
proof -
  assume c: "constructed eq" and a: "assign_range eq r = Inr eq'"
  have "constructed (eq\<lparr>param_range := r\<rparr>)" using c by (simp add: constructed_def)
  moreover from a have "assign_curve (eq\<lparr>param_range := r\<rparr>) (param_curve eq) = Inr eq'"
    by (auto simp: assign_range_def range_set_def Let_def split: sum.splits)
  ultimately show ?thesis by (rule assign_curve_constructed)
qed

text \<open>The division of the setter is never by zero: it is done only when \<open>max_el\<close> and
  \<open>min_el\<close> differ, and then their difference is not zero.\<close>

lemma guarded_division: "js_neq M m \<Longrightarrow> js_sub M m \<noteq> Num 0"
  by (cases M; cases m) (auto simp: to_double_def)

subsection \<open>Three concrete curves\<close>

lemma length_curve_a: "length curve_a = 40"
  by (simp add: curve_a_def)

lemma spec_el_curve_a: "spec_max_el curve_a = 4" "spec_min_el curve_a = 0"
  by (simp_all add: curve_a_def spec_max_el_def spec_min_el_def)

lemma spec_normalized_curve_a: "map (spec_normalized curve_a) curve_a = 1 # replicate 39 0"
  by (simp add: curve_a_def spec_normalized_def spec_max_el_def spec_min_el_def)

lemma spec_gain_curve_a: "map (spec_gain r curve_a) curve_a = (r * 5) # replicate 39 0"
  by (simp add: curve_a_def spec_gain_def spec_normalized_def spec_max_el_def spec_min_el_def)

lemma spec_el_curve_b:
  "spec_max_el (1 # replicate 39 0) = 1" "spec_min_el (1 # replicate 39 0) = 0"
  by (simp_all add: spec_max_el_def spec_min_el_def)

lemma spec_el_curve_c:
  "spec_max_el (1 # replicate 39 (- 1)) = 1" "spec_min_el (1 # replicate 39 (- 1)) = - 1"
  by (simp_all add: spec_max_el_def spec_min_el_def)

lemma assign_curve_a:
  assumes "\<bar>r * 5\<bar> < float_overflow"
  shows "assign_curve (flat_equalizer (Num r)) (map Num curve_a) =
     Inr \<lparr>normalize = True, param_curve = Num 1 # replicate 39 (Num 0), param_range = Num r,
          filter_gain = (r * 5) # replicate 39 0\<rparr>"
proof -
  have "assign_curve (flat_equalizer (Num r)) (map Num curve_a) =
     Inr ((flat_equalizer (Num r))\<lparr>param_curve := map (\<lambda>x. Num (spec_normalized curve_a x)) curve_a,
             filter_gain := map (spec_gain r curve_a) curve_a\<rparr>)"
    using assms
    by (intro assign_curve_Num)
       (simp_all add: length_curve_a constructed_flat spec_el_curve_a small_numbers,
        simp add: flat_equalizer_def)
  moreover have "map (\<lambda>x. Num (spec_normalized curve_a x)) curve_a = Num 1 # replicate 39 (Num 0)"
    using spec_normalized_curve_a by (simp add: curve_a_def)
  ultimately show ?thesis
    by (simp add: spec_gain_curve_a flat_equalizer_def)
qed

lemma assign_range_b:
  assumes "length gs = 40" and "\<bar>r' * 5\<bar> < float_overflow"
  shows "assign_range \<lparr>normalize = True, param_curve = Num 1 # replicate 39 (Num 0),
          param_range = Num r, filter_gain = gs\<rparr> (Num r') =
       Inr \<lparr>normalize = True, param_curve = Num 1 # replicate 39 (Num (- 1)), param_range = Num r',
          filter_gain = (r' * 5) # replicate 39 (- (r' * 5))\<rparr>"
proof -
  let ?eq = "\<lparr>normalize = True, param_curve = Num 1 # replicate 39 (Num 0), param_range = Num r,
          filter_gain = gs\<rparr>"
  let ?xs = "1 # replicate 39 (0 :: real)"
  have "assign_range ?eq (Num r') =
     Inr (?eq\<lparr>param_range := Num r',
             param_curve := map (\<lambda>x. Num (spec_normalized ?xs x)) ?xs,
             filter_gain := map (spec_gain r' ?xs) ?xs\<rparr>)"
    using assms by (intro assign_range_Num) (simp_all add: constructed_def spec_el_curve_b small_numbers)
  then show ?thesis
    by (simp add: spec_gain_def spec_normalized_def spec_el_curve_b)
qed

lemma assign_range_c:
  assumes "length gs = 40" and "\<bar>r' * 5\<bar> < float_overflow"
  shows "assign_range \<lparr>normalize = True, param_curve = Num 1 # replicate 39 (Num (- 1)),
          param_range = Num r, filter_gain = gs\<rparr> (Num r') =
       Inr \<lparr>normalize = True, param_curve = Num 1 # replicate 39 (Num (- 1)), param_range = Num r',
          filter_gain = (r' * 5) # replicate 39 (- (r' * 5))\<rparr>"
proof -
  let ?eq = "\<lparr>normalize = True, param_curve = Num 1 # replicate 39 (Num (- 1)), param_range = Num r,
          filter_gain = gs\<rparr>"
  let ?xs = "1 # replicate 39 (- 1 :: real)"
  have "assign_range ?eq (Num r') =
     Inr (?eq\<lparr>param_range := Num r',
             param_curve := map (\<lambda>x. Num (spec_normalized ?xs x)) ?xs,
             filter_gain := map (spec_gain r' ?xs) ?xs\<rparr>)"
    using assms by (intro assign_range_Num) (simp_all add: constructed_def spec_el_curve_c small_numbers)
  then show ?thesis
    by (simp add: spec_gain_def spec_normalized_def spec_el_curve_c)
qed

subsection \<open>Claims about the curve and range setters\<close>

text \<open>
  C1 (as amended). A curve of 40 equal values \<open>c\<close> is degenerate only when \<open>c = 0\<close>,
  since 0 always belongs to the range. For a finite double \<open>c \<noteq> 0\<close> and a range whose
  product \<open>range * 5\<close> is a finite single-precision value \<open>m * 2^(e - 149)\<close>, which the gain
  parameter stores unchanged, the setter succeeds and gives every band the gain
  \<open>range * 5\<close> when \<open>c > 0\<close> and \<open>- range * 5\<close> when \<open>c < 0\<close>: a number, and not 0 dB unless
  the range is 0.
\<close>

theorem equal_values_gain:
  assumes "constructed eq" and "param_range eq = Num r" and "c \<noteq> 0"
    and "\<bar>c\<bar> < double_overflow"
    and "r * 5 = single_precision m e" and "\<bar>m\<bar> < 2 ^ 24" and "e \<le> 253"
  shows "gains_of (assign_curve eq (replicate 40 (Num c)))
           = Inr (replicate 40 (r * 5 * (if 0 < c then 1 else - 1)))"
proof -
  let ?xs = "replicate 40 c"
  have mx: "spec_max_el ?xs = max 0 c" and mn: "spec_min_el ?xs = min 0 c"
    by (simp_all add: spec_max_el_def spec_min_el_def)
  have ne: "spec_max_el ?xs \<noteq> spec_min_el ?xs"
    using assms(3) by (simp add: mx mn max_def min_def)
  have fin: "spec_max_el ?xs - spec_min_el ?xs < double_overflow"
    using assms(4) by (auto simp add: mx mn max_def min_def)
  have single: "\<bar>r * 5\<bar> < float_overflow"
    unfolding assms(5) using assms(6,7) by (rule single_precision_range)
  have "assign_curve eq (map Num ?xs) =
     Inr (eq\<lparr>param_curve := map (\<lambda>x. Num (spec_normalized ?xs x)) ?xs,
             filter_gain := map (spec_gain r ?xs) ?xs\<rparr>)"
    using assms(1,2) single ne fin by (intro assign_curve_Num) simp_all
  moreover have "spec_gain r ?xs c = r * 5 * (if 0 < c then 1 else - 1)"
    using assms(3) by (simp add: spec_gain_def spec_normalized_def mx mn max_def min_def)
  ultimately show ?thesis
    by (simp add: gains_of_def)
qed

theorem equal_values_gain_witness:
  "constructed (flat_equalizer (Num 1)) \<and> (- 2 :: real) \<noteq> 0
   \<and> \<bar>- 2 :: real\<bar> < double_overflow
   \<and> (1 :: real) * 5 = single_precision 5 149 \<and> \<bar>5 :: int\<bar> < 2 ^ 24 \<and> (149 :: nat) \<le> 253
   \<and> gains_of (assign_curve (flat_equalizer (Num 1)) (replicate 40 (Num (- 2)))) = Inr (replicate 40 (- 5))"
proof -
  have h1: "constructed (flat_equalizer (Num 1))" by (rule constructed_flat)
  have h2: "param_range (flat_equalizer (Num 1)) = Num 1" by (simp add: flat_equalizer_def)
  have h3: "(- 2 :: real) \<noteq> 0" by simp
  have h4: "\<bar>- 2 :: real\<bar> < double_overflow" using small_numbers(2) by simp
  have h5: "(1 :: real) * 5 = single_precision 5 149" by (simp add: single_precision_def)
  have h6: "\<bar>5 :: int\<bar> < 2 ^ 24" by simp
  have h7: "(149 :: nat) \<le> 253" by simp
  have "gains_of (assign_curve (flat_equalizer (Num 1)) (replicate 40 (Num (- 2)))) = Inr (replicate 40 (- 5))"
    using equal_values_gain [OF h1 h2 h3 h4 h5 h6 h7] by simp
  with h1 h3 h4 h5 h6 h7 show ?thesis by simp
qed

text \<open>
  C1 (as stated) fails: with range 1 the curve of 40 fives gives every band 5 dB, not 0 dB.
\<close>

theorem equal_values_gain_counterexample:
  "gains_of (assign_curve (flat_equalizer (Num 1)) (replicate 40 (Num 5))) = Inr (replicate 40 5)
   \<and> replicate 40 (5 :: real) \<noteq> replicate 40 0"
proof -
  let ?xs = "replicate 40 (5 :: real)"
  have el: "spec_max_el ?xs = 5" "spec_min_el ?xs = 0"
    by (simp_all add: spec_max_el_def spec_min_el_def)
  have "assign_curve (flat_equalizer (Num 1)) (map Num ?xs) =
     Inr ((flat_equalizer (Num 1))\<lparr>param_curve := map (\<lambda>x. Num (spec_normalized ?xs x)) ?xs,
             filter_gain := map (spec_gain 1 ?xs) ?xs\<rparr>)"
    by (intro assign_curve_Num)
       (simp_all add: constructed_flat el small_numbers, simp add: flat_equalizer_def)
  then show ?thesis
    by (simp add: gains_of_def spec_gain_def spec_normalized_def el)
qed

text \<open>
  C2 fails on the constructor: \<open>new Equalizer(context, {curve: curve_a})\<close>, the call the
  batch page makes, gives the filters the raw curve values 4, 2, ..., 2 as gains, where
  \<open>range * 5 * normalized\<close> with the default range 1 is 5, 0, ..., 0.
\<close>

theorem constructor_gain_is_raw_curve:
  "map_sum id filter_gain (Equalizer (Some (map Num curve_a)) Undefined) = Inr curve_a
   \<and> map (spec_gain 1 curve_a) curve_a = 5 # replicate 39 0
   \<and> curve_a \<noteq> 5 # replicate 39 0"
proof -
  have "Equalizer (Some (map Num curve_a)) Undefined =
     Inr \<lparr>normalize = True, param_curve = map Num curve_a,
          param_range = Num 1, filter_gain = take 40 curve_a\<rparr>"
    using Equalizer_Num [OF curve_a_floats, of Undefined] by (simp add: length_curve_a)
  then have "map_sum id filter_gain (Equalizer (Some (map Num curve_a)) Undefined) = Inr curve_a"
    by (simp add: length_curve_a)
  moreover have "map (spec_gain 1 curve_a) curve_a = 5 # replicate 39 0"
    using spec_gain_curve_a [of 1] by simp
  moreover have "curve_a \<noteq> 5 # replicate 39 0"
    by (simp add: curve_a_def)
  ultimately show ?thesis by blast
qed

text \<open>
  C3 fails: the range setter re-normalises the stored, already normalised curve. After
  \<open>eq.curve = curve_a; eq.range = 2; eq.range = 1\<close> the gains are 5, -5, ..., -5, while
  setting \<open>curve_a\<close> on an equalizer whose range is 1 gives 5, 0, ..., 0.
\<close>

theorem range_change_drifts_curve:
  "gains_of (then_assign_range
       (then_assign_range (assign_curve (flat_equalizer (Num 1)) (map Num curve_a)) (Num 2)) (Num 1))
     = Inr (5 # replicate 39 (- 5))
   \<and> gains_of (assign_curve (flat_equalizer (Num 1)) (map Num curve_a)) = Inr (5 # replicate 39 0)"
  by (simp add: assign_curve_a then_assign_range_def assign_range_b assign_range_c gains_of_def
      small_numbers)

text \<open>
  C7 (as amended). For a curve of 40 numbers whose range (with 0) is not degenerate and
  whose width \<open>max_el - min_el\<close> does not overflow, the values the setter stores are the
  normalised values \<open>((curve[i] - min_el) / (max_el - min_el)) * 2 - 1\<close> of the first bands,
  at least one of them, and every one of them lies in \<open>[-1, 1]\<close>, whatever the range
  is. When in addition the range is a number whose product with 5 converts to a finite
  single-precision value, the setter succeeds and stores the value of every band.
\<close>

theorem normalized_in_unit_interval:
  assumes "length xs = 40" and "constructed eq"
    and "spec_max_el xs \<noteq> spec_min_el xs"
    and "spec_max_el xs - spec_min_el xs < double_overflow"
  shows "(\<exists>k. 0 < k \<and> k \<le> 40 \<and>
            param_curve (state_after (assign_curve eq (map Num xs)))
              = map (\<lambda>x. Num (spec_normalized xs x)) (take k xs))
         \<and> list_all in_unit_interval (param_curve (state_after (assign_curve eq (map Num xs))))
         \<and> (\<forall>r. param_range eq = Num r \<and> \<bar>r * 5\<bar> < float_overflow \<longrightarrow>
               (\<exists>eq'. assign_curve eq (map Num xs) = Inr eq'
                  \<and> param_curve eq' = map (\<lambda>x. Num (spec_normalized xs x)) xs))"
proof -
  have pos: "0 < spec_max_el xs - spec_min_el xs"
    using assms(3) spec_min_le_max [of xs] by simp
  have bounds: "- 1 \<le> spec_normalized xs x \<and> spec_normalized xs x \<le> 1" if "x \<in> set xs" for x
  proof -
    have lo: "0 \<le> x - spec_min_el xs" and hi: "x - spec_min_el xs \<le> spec_max_el xs - spec_min_el xs"
      using spec_bounds [OF that] by simp_all
    define q where "q = (x - spec_min_el xs) / (spec_max_el xs - spec_min_el xs)"
    have "0 \<le> q"
      using lo pos by (simp add: q_def)
    moreover have "q \<le> 1"
      using hi pos by (simp add: q_def divide_le_eq)
    moreover have "spec_normalized xs x = q * 2 - 1"
      by (simp add: spec_normalized_def q_def)
    ultimately show ?thesis by linarith
  qed
  obtain k where k: "0 < k" "k \<le> 40"
    and stored: "param_curve (state_after (assign_curve eq (map Num xs)))
              = map (\<lambda>x. Num (spec_normalized xs x)) (take k xs)"
    using assign_curve_prefix [OF assms] by blast
  have "list_all in_unit_interval (map (\<lambda>x. Num (spec_normalized xs x)) (take k xs))"
    using bounds by (auto simp add: list_all_iff in_unit_interval_def dest: in_set_takeD)
  then have inside: "list_all in_unit_interval (param_curve (state_after (assign_curve eq (map Num xs))))"
    by (simp only: stored)
  have full: "\<exists>eq'. assign_curve eq (map Num xs) = Inr eq'
                  \<and> param_curve eq' = map (\<lambda>x. Num (spec_normalized xs x)) xs"
    if "param_range eq = Num r \<and> \<bar>r * 5\<bar> < float_overflow" for r
    using assign_curve_Num [OF assms(1,2) _ assms(3,4), of r] that by simp
  show ?thesis
    using k stored inside full by blast
qed

theorem normalized_in_unit_interval_witness:
  "length curve_a = 40 \<and> constructed (flat_equalizer (Num 1))
   \<and> spec_max_el curve_a \<noteq> spec_min_el curve_a
   \<and> spec_max_el curve_a - spec_min_el curve_a < double_overflow
   \<and> param_range (flat_equalizer (Num 1)) = Num 1 \<and> \<bar>1 * 5 :: real\<bar> < float_overflow
   \<and> list_all in_unit_interval
        (param_curve (state_after (assign_curve (flat_equalizer (Num 1)) (map Num curve_a))))
   \<and> (\<exists>eq'. assign_curve (flat_equalizer (Num 1)) (map Num curve_a) = Inr eq'
          \<and> param_curve eq' = Num 1 # replicate 39 (Num 0))"
proof -
  have h1: "length curve_a = 40" by (rule length_curve_a)
  have h2: "constructed (flat_equalizer (Num 1))" by (rule constructed_flat)
  have h3: "spec_max_el curve_a \<noteq> spec_min_el curve_a" by (simp add: spec_el_curve_a)
  have h4: "spec_max_el curve_a - spec_min_el curve_a < double_overflow"
    by (simp add: spec_el_curve_a small_numbers)
  have h5: "param_range (flat_equalizer (Num 1)) = Num 1 \<and> \<bar>1 * 5 :: real\<bar> < float_overflow"
    by (simp add: flat_equalizer_def small_numbers)
  note main = normalized_in_unit_interval [OF h1 h2 h3 h4]
  have inside: "list_all in_unit_interval
        (param_curve (state_after (assign_curve (flat_equalizer (Num 1)) (map Num curve_a))))"
    using main by (rule conjunct2 [THEN conjunct1])
  have "\<forall>r. param_range (flat_equalizer (Num 1)) = Num r \<and> \<bar>r * 5\<bar> < float_overflow \<longrightarrow>
           (\<exists>eq'. assign_curve (flat_equalizer (Num 1)) (map Num curve_a) = Inr eq'
              \<and> param_curve eq' = map (\<lambda>x. Num (spec_normalized curve_a x)) curve_a)"
    using main by (rule conjunct2 [THEN conjunct2])
  then have "\<exists>eq'. assign_curve (flat_equalizer (Num 1)) (map Num curve_a) = Inr eq'
              \<and> param_curve eq' = map (\<lambda>x. Num (spec_normalized curve_a x)) curve_a"
    using h5 by blast
  moreover have "map (\<lambda>x. Num (spec_normalized curve_a x)) curve_a = Num 1 # replicate 39 (Num 0)"
    by (simp add: spec_normalized_def spec_el_curve_a) (simp add: curve_a_def)
  ultimately have full: "\<exists>eq'. assign_curve (flat_equalizer (Num 1)) (map Num curve_a) = Inr eq'
          \<and> param_curve eq' = Num 1 # replicate 39 (Num 0)"
    by simp
  show ?thesis
    using h1 h2 h3 h4 h5 inside full by (intro conjI) simp_all
qed

text \<open>
  C7 (as stated) fails. The curve \<open>2^1023, -2^1023, 0, ..., 0\<close> is a curve of 40 finite
  doubles with a non-degenerate range, but \<open>curve[0] - min_el\<close> and \<open>max_el - min_el\<close> both
  overflow to Infinity; their quotient is NaN, the value pushed for band 0 is NaN, which
  is not in \<open>[-1, 1]\<close>, and setting the gain of band 0 raises TypeError.
\<close>

theorem normalized_overflow_counterexample:
  "length curve_huge = 40
   \<and> spec_max_el curve_huge \<noteq> spec_min_el curve_huge
   \<and> assign_curve (flat_equalizer (Num 1)) (map Num curve_huge)
       = Inl (TypeError, (flat_equalizer (Num 1))\<lparr>param_curve := [NaN]\<rparr>)
   \<and> \<not> in_unit_interval NaN"
proof -
  have len: "length curve_huge = 40" by (simp add: curve_huge_def)
  have mx: "spec_max_el curve_huge = 2 ^ 1023" and mn: "spec_min_el curve_huge = - (2 ^ 1023)"
    by (simp_all add: curve_huge_def spec_max_el_def spec_min_el_def)
  define h :: real where "h = 2 ^ 1023"
  define v where "v = map Num curve_huge"
  define e0 where "e0 = (flat_equalizer (Num 1))\<lparr>param_curve := []\<rparr>"
  have mm: "minmax_loop v 0 (Num 0, Num 0) = (Num h, Num (- h))"
    unfolding v_def h_def using minmax_loop_spec [OF len] by (simp only: mx mn)
  have push: "push_curve e0 v (Num h) (Num (- h)) 0 = [NaN]"
    unfolding e0_def v_def h_def
    by (simp add: push_curve_def Let_def js_index_def curve_huge_def to_double_def
        double_overflow_def flat_equalizer_def)
  have gains: "length (filter_gain e0) = 40"
    by (simp add: e0_def flat_equalizer_def)
  have "set_loop e0 v (Num h) (Num (- h)) 0 = Inl (TypeError, e0\<lparr>param_curve := [NaN]\<rparr>)"
    by (subst set_loop.simps)
       (simp add: Let_def push gains js_index_def js_mul_NaN audio_param_float_def)
  then have "curve_set (flat_equalizer (Num 1)) v
       = Inl (TypeError, e0\<lparr>param_curve := [NaN]\<rparr>)"
    using len unfolding curve_set_def Let_def mm e0_def by (simp add: v_def)
  then have "assign_curve (flat_equalizer (Num 1)) (map Num curve_huge)
       = Inl (TypeError, (flat_equalizer (Num 1))\<lparr>param_curve := [NaN]\<rparr>)"
    by (simp add: assign_curve_def v_def e0_def)
  moreover have "spec_max_el curve_huge \<noteq> spec_min_el curve_huge"
    by (simp add: mx mn)
  ultimately show ?thesis
    using len by (simp add: in_unit_interval_def)
qed

text \<open>
  C8 (as amended). Assigning a curve whose length is not 40 is ignored without any error:
  the setter returns \<open>-1\<close>, which the assignment discards, and the stored curve, the range
  and the 40 filter gains are unchanged.
\<close>

theorem wrong_length_ignored:
  assumes "length v \<noteq> 40"
  shows "curve_set eq v = Inr (Num (- 1), eq) \<and> assign_curve eq v = Inr eq"
  using assms by (simp add: curve_set_def assign_curve_def)

theorem wrong_length_ignored_witness:
  "length [Num 1, Num 2] \<noteq> 40
   \<and> assign_curve (flat_equalizer (Num 1)) [Num 1, Num 2] = Inr (flat_equalizer (Num 1))"
  using wrong_length_ignored [of "[Num 1, Num 2]" "flat_equalizer (Num 1)"] by simp

text \<open>
  C8 (as stated) fails: assigning the empty curve raises nothing.
\<close>

theorem wrong_length_counterexample:
  "\<not> isl (assign_curve (flat_equalizer (Num 1)) [])"
  by (simp add: assign_curve_def curve_set_def)

section \<open>Properties of the job derivation\<close>

lemma eq_preset_loop_eq:
  "eq_preset_loop fs outputDir audio presets (pd, sk) =
     (pd @ map (eq_job_of audio) (filter (\<lambda>p. \<not> eq_output_exists fs outputDir audio p) presets),
      sk @ map (\<lambda>p. outputId (eq_job_of audio p) @ ''.wav'')
             (filter (eq_output_exists fs outputDir audio) presets))"
proof (induction presets arbitrary: pd sk)
  case Nil
  then show ?case by simp
next
  case (Cons p presets)
  obtain name params where p: "p = (name, params)" by (cases p)
  show ?case
    by (simp add: p Cons.IH Let_def eq_output_exists_def eq_job_of_def)
qed

lemma eq_audio_loop_eq:
  "eq_audio_loop fs outputDir audios presets (pd, sk) =
     (pd @ product_without (eq_output_exists fs outputDir) eq_job_of audios presets,
      sk @ concat (map (\<lambda>a. map (\<lambda>p. outputId (eq_job_of a p) @ ''.wav'')
                              (filter (eq_output_exists fs outputDir a) presets)) audios))"
proof (induction audios arbitrary: pd sk)
  case Nil
  then show ?case by (simp add: product_without_def)
next
  case (Cons a audios)
  show ?case
    by (simp add: eq_preset_loop_eq Cons.IH product_without_def)
qed

lemma prepare_eq_product:
  "fst (prepare_eq fs audioDir eqDir outputDir) =
     product_without (eq_output_exists fs outputDir) eq_job_of (wav_files audioDir) (json_files eqDir)"
  by (simp add: prepare_eq_def eq_audio_loop_eq wav_files_def json_files_def Let_def)

lemma prepare_eq_skipped:
  "snd (prepare_eq fs audioDir eqDir outputDir) =
     concat (map (\<lambda>a. map (\<lambda>p. outputId (eq_job_of a p) @ ''.wav'')
                      (filter (eq_output_exists fs outputDir a) (json_files eqDir)))
                 (wav_files audioDir))"
  by (simp add: prepare_eq_def eq_audio_loop_eq wav_files_def json_files_def Let_def)

lemma reverb_preset_loop_eq:
  "reverb_preset_loop audio presets pd = pd @ map (reverb_job_of audio) presets"
proof (induction presets arbitrary: pd)
  case Nil
  then show ?case by simp
next
  case (Cons p presets)
  obtain name params where p: "p = (name, params)" by (cases p)
  show ?case
    by (simp add: p Cons.IH Let_def reverb_job_of_def)
qed

lemma prepare_reverb_product:
  "prepare_reverb audio reverbDir =
     product_without (\<lambda>a p. False) reverb_job_of [audio] (json_files reverbDir)"
  by (simp add: prepare_reverb_def reverb_preset_loop_eq product_without_def json_files_def Let_def)

subsection \<open>When two output ids are equal\<close>

lemma split_on_pieces: "x \<in> set (split_on c s) \<Longrightarrow> set x \<subseteq> set s"
proof (induction s arbitrary: x)
  case Nil
  then show ?case by simp
next
  case (Cons a s)
  show ?case
  proof (cases "a = c")
    case True
    with Cons show ?thesis by auto
  next
    case False
    show ?thesis
    proof (cases "split_on c s")
      case Nil
      with False Cons.prems show ?thesis by simp
    next
      case pieces: (Cons y ys)
      with False Cons.prems have "x = a # y \<or> x \<in> set ys" by simp
      moreover have "set y \<subseteq> set s" using Cons.IH [of y] pieces by simp
      moreover have "x \<in> set ys \<Longrightarrow> set x \<subseteq> set s" using Cons.IH [of x] pieces by simp
      ultimately show ?thesis by auto
    qed
  qed
qed

lemma preset_id_no_slash:
  assumes "CHR ''/'' \<notin> set name"
  shows "CHR ''/'' \<notin> set (interpolate (preset_id name))"
proof (cases "preset_id name")
  case None
  then show ?thesis by (simp add: interpolate_def)
next
  case (Some x)
  then have "x \<in> set (split_on CHR ''_'' (basename_entry name ''.json''))"
    by (auto simp: preset_id_def nth_or_undefined_def split: if_splits)
  then have "set x \<subseteq> set (basename_entry name ''.json'')"
    by (rule split_on_pieces)
  moreover have "set (basename_entry name ''.json'') \<subseteq> set name"
    by (auto simp: basename_entry_def dest: in_set_takeD)
  ultimately show ?thesis
    using assms Some by (auto simp: interpolate_def)
qed

lemma first_separator:
  "c \<notin> set a \<Longrightarrow> c \<notin> set b \<Longrightarrow> a @ c # x = b @ c # y \<Longrightarrow> a = b \<and> x = y"
proof (induction a arbitrary: b)
  case Nil
  then show ?case by (cases b) auto
next
  case (Cons u a)
  then show ?case by (cases b) auto
qed

lemma eq_output_id_inj:
  assumes "CHR ''/'' \<notin> set (interpolate i1)" and "CHR ''/'' \<notin> set (interpolate i2)"
  shows "eq_output_id i1 n1 = eq_output_id i2 n2 \<longleftrightarrow> interpolate i1 = interpolate i2 \<and> n1 = n2"
  using first_separator [OF assms, of n1 n2] by (auto simp: eq_output_id_def)

lemma reverb_output_id_inj:
  assumes "CHR ''/'' \<notin> set (interpolate i1)" and "CHR ''/'' \<notin> set (interpolate i2)"
  shows "reverb_output_id i1 n1 = reverb_output_id i2 n2 \<longleftrightarrow> interpolate i1 = interpolate i2 \<and> n1 = n2"
  using first_separator [OF assms, of n1 n2] by (auto simp: reverb_output_id_def)

section \<open>Properties of the batch page\<close>

lemma processBatch_eq_empty:
  "processBatch_eq w [] =
     (True, \<lparr>totalJobs = 0, completedJobs = 0, skippedJobs = 0, skippedFiles = [], events = []\<rparr>)"
  by (simp add: processBatch_eq_def eq_wave_loop.simps)

lemma check_loop_to_process:
  "fst (check_loop w batch (js, st)) =
     js @ filter (\<lambda>j. \<not> fst (checkFileExists w (outputId j))) batch"
proof (induction batch arbitrary: js st)
  case Nil
  then show ?case by simp
next
  case (Cons j batch)
  obtain ex es where c: "checkFileExists w (outputId j) = (ex, es)"
    by (cases "checkFileExists w (outputId j)")
  show ?case
    by (cases ex) (simp_all add: c Cons.IH Let_def)
qed

lemma check_loop_all_exist:
  assumes "\<forall>j \<in> set batch. probe w (outputId j) = ProbeReplied (Some True)"
  shows "check_loop w batch (js, st) =
     (js, st\<lparr>skippedJobs := skippedJobs st + length batch,
            skippedFiles := skippedFiles st @ map outputId batch,
            events := events st @ map skip_log batch\<rparr>)"
  using assms
proof (induction batch arbitrary: st)
  case Nil
  then show ?case by simp
next
  case (Cons j batch)
  have c: "checkFileExists w (outputId j) = (True, [])"
    using Cons.prems by (simp add: checkFileExists_def)
  have "\<forall>j \<in> set batch. probe w (outputId j) = ProbeReplied (Some True)"
    using Cons.prems by simp
  note IH = Cons.IH [OF this]
  show ?case
    by (simp add: c IH emit_def skip_log_def Let_def)
qed

lemma reverb_wave_loop_all_exist:
  assumes "\<forall>j \<in> set batchData. probe w (outputId j) = ProbeReplied (Some True)"
  shows "reverb_wave_loop w batchData i st =
     (True, st\<lparr>skippedJobs := skippedJobs st + (length batchData - i),
            skippedFiles := skippedFiles st @ map outputId (drop i batchData),
            events := events st @ map skip_log (drop i batchData)\<rparr>)"
proof (induction "length batchData - i" arbitrary: i st rule: less_induct)
  case less
  show ?case
  proof (cases "i < length batchData")
    case False
    then show ?thesis
      by (subst reverb_wave_loop.simps) simp
  next
    case True
    let ?batch = "take 5 (drop i batchData)"
    let ?st1 = "st\<lparr>skippedJobs := skippedJobs st + length ?batch,
            skippedFiles := skippedFiles st @ map outputId ?batch,
            events := events st @ map skip_log ?batch\<rparr>"
    have all: "\<forall>j \<in> set ?batch. probe w (outputId j) = ProbeReplied (Some True)"
      using assms by (auto dest!: in_set_takeD in_set_dropD)
    have chk: "check_loop w ?batch ([], st) = ([], ?st1)"
      by (rule check_loop_all_exist [OF all])
    have IH: "reverb_wave_loop w batchData (i + 5) ?st1 =
       (True, ?st1\<lparr>skippedJobs := skippedJobs ?st1 + (length batchData - (i + 5)),
            skippedFiles := skippedFiles ?st1 @ map outputId (drop (i + 5) batchData),
            events := events ?st1 @ map skip_log (drop (i + 5) batchData)\<rparr>)"
      using True by (intro less.hyps) simp
    have dr: "?batch @ drop (i + 5) batchData = drop i batchData"
      by (metis add.commute append_take_drop_id drop_drop)
    have len: "length ?batch + (length batchData - (i + 5)) = length batchData - i"
      using True by (simp add: min_def)
    have "reverb_wave_loop w batchData i st = reverb_wave_loop w batchData (i + 5) ?st1"
      using True by (subst reverb_wave_loop.simps) (simp add: chk)
    also note IH
    finally show ?thesis
      using dr len
      by (simp add: add.assoc flip: map_append)
  qed
qed

text \<open>The reverb page on a rerun: when every probe answers that the file exists, nothing
  is rendered, every job is counted as skipped and \<open>/complete\<close> is posted once.\<close>

lemma processBatch_reverb_rerun:
  assumes "\<forall>j \<in> set batchData. probe w (outputId j) = ProbeReplied (Some True)"
  shows "processBatch_reverb w batchData =
     (True, \<lparr>totalJobs = length batchData, completedJobs = 0, skippedJobs = length batchData,
            skippedFiles = map outputId batchData,
            events = map skip_log batchData
               @ (if batchData = [] then [] else [SkipSummary (map outputId batchData)])
               @ [PostComplete]\<rparr>)"
  by (simp add: processBatch_reverb_def reverb_wave_loop_all_exist [OF assms] emit_def Let_def)

lemma render_count_rerun:
  assumes "\<forall>j \<in> set batchData. probe w (outputId j) = ProbeReplied (Some True)"
  shows "render_count (snd (processBatch_reverb w batchData)) = 0"
    and "complete_count (snd (processBatch_reverb w batchData)) = 1"
  by (simp_all add: processBatch_reverb_rerun [OF assms] render_count_def complete_count_def
      skip_log_def)

text \<open>The equalizer page itself never posts \<open>/complete\<close>: whatever the jobs and the world,
  no such event comes out of \<open>processBatch\<close>. Only the callback of a save posts it.\<close>

lemma processAudio_events:
  "PostComplete \<notin> set (events st) \<Longrightarrow> PostComplete \<notin> set (events (snd (processAudio w j st)))"
  by (cases "renders w j") (simp_all add: processAudio_def emit_def Let_def)

lemma promise_all_events:
  "PostComplete \<notin> set (events st) \<Longrightarrow> PostComplete \<notin> set (events (snd (promise_all w js st)))"
proof (induction js arbitrary: st)
  case Nil
  then show ?case by simp
next
  case (Cons j js)
  have "PostComplete \<notin> set (events (snd (processAudio w j st)))"
    using Cons.prems by (rule processAudio_events)
  then have "PostComplete \<notin> set (events (snd (promise_all w js (snd (processAudio w j st)))))"
    by (rule Cons.IH)
  then show ?case
    by (simp add: case_prod_unfold Let_def)
qed

lemma eq_wave_loop_events:
  "PostComplete \<notin> set (events st) \<Longrightarrow>
   PostComplete \<notin> set (events (snd (eq_wave_loop w batchData i st)))"
proof (induction "length batchData - i" arbitrary: i st rule: less_induct)
  case less
  show ?case
  proof (cases "i < length batchData")
    case False
    then show ?thesis using less.prems by (subst eq_wave_loop.simps) simp
  next
    case True
    let ?r = "promise_all w (take 8 (drop i batchData)) st"
    have p: "PostComplete \<notin> set (events (snd ?r))"
      using less.prems by (rule promise_all_events)
    have "PostComplete \<notin> set (events (snd (eq_wave_loop w batchData (i + 8) (snd ?r))))"
      using True p by (intro less.hyps) simp_all
    then show ?thesis
      using True p
      by (subst eq_wave_loop.simps) (simp add: case_prod_unfold Let_def)
  qed
qed

lemma processBatch_eq_never_posts:
  "complete_count (snd (processBatch_eq w batchData)) = 0"
proof -
  have "PostComplete \<notin> set (events (snd (processBatch_eq w batchData)))"
    unfolding processBatch_eq_def by (rule eq_wave_loop_events) simp
  then show ?thesis
    by (auto simp add: complete_count_def filter_empty_conv)
qed

text \<open>A save callback that runs when all jobs are completed posts \<open>/complete\<close>.\<close>

lemma save_callback_eq_posts:
  "totalJobs st \<le> completedJobs st \<Longrightarrow>
   events (save_callback_eq st) = events st @ [PostComplete]"
  by (simp add: save_callback_eq_def emit_def)

subsection \<open>Claims about derivation and dispatch\<close>

lemma outputId_job_x1: "outputId job_x1 = ''reverb_1/x''"
  by (simp add: job_x1_def reverb_job_of_def reverb_output_id_def preset_id_def
      basename_entry_def basename_in_dir_def ends_with_def nth_or_undefined_def interpolate_def)

text \<open>
  C4 fails on the equalizer pipeline. With the output of the only job on disk, the
  derivation skips the job and hands the page an empty list; the page then renders
  nothing and posts nothing, so completion is never signalled: \<open>/complete\<close> is posted only
  from the callback of a save. The reverb page, on the same rerun, skips the job and
  posts \<open>/complete\<close>.
\<close>

theorem eq_rerun_never_completes:
  "prepare_eq rendered_files [''x.wav''] [(''eq_1.json'', [])] ''out'' = ([], [''eq_1/x.wav''])
   \<and> processBatch_eq rerun_world [] =
       (True, \<lparr>totalJobs = 0, completedJobs = 0, skippedJobs = 0, skippedFiles = [], events = []\<rparr>)
   \<and> render_count (snd (processBatch_eq rerun_world [])) = 0
   \<and> complete_count (snd (processBatch_eq rerun_world [])) = 0
   \<and> events (snd (processBatch_reverb rerun_world [job_x1]))
        = [skip_log job_x1, SkipSummary [''reverb_1/x''], PostComplete]"
proof -
  have "prepare_eq rendered_files [''x.wav''] [(''eq_1.json'', [])] ''out'' = ([], [''eq_1/x.wav''])"
    by (simp add: prepare_eq_def rendered_files_def ends_with_def preset_id_def basename_entry_def
        basename_in_dir_def nth_or_undefined_def eq_output_id_def interpolate_def path_join_def
        existsSync_def Let_def)
  moreover have "complete_count (snd (processBatch_eq rerun_world [])) = 0"
    by (simp add: processBatch_eq_empty complete_count_def)
  moreover have "render_count (snd (processBatch_eq rerun_world [])) = 0"
    by (simp add: processBatch_eq_empty render_count_def)
  moreover have "probe rerun_world (outputId job_x1) = ProbeReplied (Some True)"
    by (simp add: outputId_job_x1 rerun_world_def probe_of_files_def rendered_files_def
        existsSync_def path_join_def)
  then have "events (snd (processBatch_reverb rerun_world [job_x1]))
      = [skip_log job_x1, SkipSummary [''reverb_1/x''], PostComplete]"
    by (subst processBatch_reverb_rerun) (simp_all add: outputId_job_x1)
  ultimately show ?thesis
    by (simp add: processBatch_eq_empty)
qed

text \<open>
  C5 (as amended). When the probe of a job fails, \<open>checkFileExists\<close> writes the error to
  the console and returns \<open>false\<close>, and the job of the wave goes to \<open>jobsToProcess\<close>: it is
  dispatched for rendering as if the file did not exist.
\<close>

theorem failed_probe_is_dispatched:
  assumes "probe w (outputId j) = ProbeFailed" and "j \<in> set batch"
  shows "checkFileExists w (outputId j) = (False, [ConsoleError ''Error checking file existence:''])
         \<and> j \<in> set (fst (check_loop w batch (js, st)))"
  using assms by (simp add: check_loop_to_process) (simp add: checkFileExists_def)

theorem failed_probe_is_dispatched_witness:
  "probe failing_probe_world (outputId job_x1) = ProbeFailed
   \<and> fst (check_loop failing_probe_world [job_x1]
             ([], \<lparr>totalJobs = 1, completedJobs = 0, skippedJobs = 0, skippedFiles = [], events = []\<rparr>))
       = [job_x1]"
proof -
  have h: "probe failing_probe_world (outputId job_x1) = ProbeFailed"
    by (simp add: failing_probe_world_def)
  have "checkFileExists failing_probe_world (outputId job_x1)
          = (False, [ConsoleError ''Error checking file existence:''])"
    using failed_probe_is_dispatched [OF h, of "[job_x1]"] by simp
  then show ?thesis
    using h by (simp add: Let_def)
qed

text \<open>
  C5 (as stated) fails: with a failing probe the page logs the error and renders the job.
\<close>

theorem failed_probe_counterexample:
  "events (snd (processBatch_reverb failing_probe_world [job_x1])) =
     [ConsoleError ''Error checking file existence:'', ProcessAudio ''reverb_1/x'',
      SaveToServer ''reverb_1/x'', PostComplete]
   \<and> render_count (snd (processBatch_reverb failing_probe_world [job_x1])) = 1"
  by (simp add: processBatch_reverb_def reverb_wave_loop.simps checkFileExists_def
      failing_probe_world_def processAudio_def emit_def Let_def outputId_job_x1 render_count_def)

text \<open>
  C6 (as amended). The equalizer script derives, in order, the cartesian product of the
  \<open>.wav\<close> sources and the \<open>.json\<close> presets without the pairs whose output file exists; the
  reverb script derives one job for every preset. Both are functions of their inputs. Two
  jobs have the same \<open>outputId\<close> exactly when their audio names agree and the second
  \<open>_\<close>-separated fields of their preset file names agree.
\<close>

theorem derived_jobs:
  assumes "listing dir" and "p1 \<in> set dir" and "p2 \<in> set dir"
  shows "fst (prepare_eq fs audioDir dir outputDir) =
           product_without (eq_output_exists fs outputDir) eq_job_of (wav_files audioDir) (json_files dir)
       \<and> prepare_reverb audio dir = product_without (\<lambda>a p. False) reverb_job_of [audio] (json_files dir)
       \<and> (outputId (eq_job_of a1 p1) = outputId (eq_job_of a2 p2) \<longleftrightarrow>
            interpolate (preset_id (fst p1)) = interpolate (preset_id (fst p2))
            \<and> basename_in_dir a1 ''.wav'' = basename_in_dir a2 ''.wav'')
       \<and> (outputId (reverb_job_of a1 p1) = outputId (reverb_job_of a2 p2) \<longleftrightarrow>
            interpolate (preset_id (fst p1)) = interpolate (preset_id (fst p2))
            \<and> basename_in_dir a1 ''.wav'' = basename_in_dir a2 ''.wav'')"
proof -
  have s1: "CHR ''/'' \<notin> set (interpolate (preset_id (fst p1)))"
    using assms(1,2) by (intro preset_id_no_slash) (auto simp: listing_def list_all_iff)
  have s2: "CHR ''/'' \<notin> set (interpolate (preset_id (fst p2)))"
    using assms(1,3) by (intro preset_id_no_slash) (auto simp: listing_def list_all_iff)
  show ?thesis
    using eq_output_id_inj [OF s1 s2] reverb_output_id_inj [OF s1 s2]
    by (simp add: prepare_eq_product prepare_reverb_product eq_job_of_def reverb_job_of_def)
qed

theorem derived_jobs_witness:
  "listing [(''eq_1_a.json'', []), (''eq_1_b.json'', [])]
   \<and> outputId (eq_job_of ''x.wav'' (''eq_1_a.json'', [])) = outputId (eq_job_of ''x.wav'' (''eq_1_b.json'', []))"
proof -
  let ?dir = "[(''eq_1_a.json'', []), (''eq_1_b.json'', [])] :: preset_file list"
  have l: "listing ?dir" by (simp add: listing_def)
  have m1: "(''eq_1_a.json'', []) \<in> set ?dir" and m2: "(''eq_1_b.json'', []) \<in> set ?dir"
    by simp_all
  have "interpolate (preset_id ''eq_1_a.json'') = interpolate (preset_id ''eq_1_b.json'')"
    by (simp add: preset_id_def basename_entry_def ends_with_def nth_or_undefined_def)
  then have "outputId (eq_job_of ''x.wav'' (''eq_1_a.json'', []))
      = outputId (eq_job_of ''x.wav'' (''eq_1_b.json'', []))"
    using derived_jobs [OF l m1 m2, of no_files "[]" "''out''" "''x.wav''" "''x.wav''" "''x.wav''"]
    by simp
  with l show ?thesis by blast
qed

text \<open>
  C6 (as stated) fails. Two distinct preset files that share the second field give two
  distinct jobs one \<open>outputId\<close>, and a pair whose output file exists is missing from the
  derived list.
\<close>

theorem derived_jobs_counterexample:
  "map outputId
     (fst (prepare_eq no_files [''x.wav''] [(''eq_1_a.json'', []), (''eq_1_b.json'', [])] ''out''))
     = [''eq_1/x'', ''eq_1/x'']
   \<and> fst (prepare_eq rendered_files [''x.wav''] [(''eq_1.json'', [])] ''out'') = []"
  by (simp add: prepare_eq_def no_files_def rendered_files_def ends_with_def preset_id_def
      basename_entry_def basename_in_dir_def nth_or_undefined_def eq_output_id_def
      interpolate_def path_join_def existsSync_def Let_def)

section \<open>Properties of the server\<close>

lemma split_on_nonempty: "split_on c s \<noteq> []"
  by (induction s) (auto split: list.splits)

lemma split_on_no_separator: "c \<notin> set b \<Longrightarrow> split_on c b = [b]"
  by (induction b) auto

lemma split_on_separator:
  "c \<notin> set b \<Longrightarrow>
   last (split_on c (a @ c # b)) = b \<and> 2 \<le> length (split_on c (a @ c # b))"
proof (induction a)
  case Nil
  then show ?case by (simp add: split_on_no_separator)
next
  case (Cons x a)
  then obtain y z zs where r: "split_on c (a @ c # b) = y # z # zs"
    by (cases "split_on c (a @ c # b)"; cases "tl (split_on c (a @ c # b))") auto
  with Cons show ?case by auto
qed

lemma last_split_on: "c \<notin> set b \<Longrightarrow> last (split_on c (a @ c # b)) = b"
  by (simp add: split_on_separator)

text \<open>For the \<open>outputId\<close> of a derived job whose audio name has no \<open>_\<close>, the server takes
  \<open><reverbId>/<audioName>\<close> for the preset id and looks for the preset file
  \<open>reverb_<reverbId>/<audioName>.json\<close>; when there is no such file, no preset is copied.\<close>

lemma save_reverb_no_copy:
  assumes "CHR ''_'' \<notin> set rid" and "CHR ''_'' \<notin> set name" and "d \<noteq> []"
    and "files srv (path_join reverbDir (''reverb_'' @ rid @ ''/'' @ name @ ''.json'')) = None"
  shows "files (snd (save_reverb outputDir reverbDir srv (Some (reverb_output_id (Some rid) name)) (Some d)))
           (path_join outputDir (reverb_output_id (Some rid) name @ ''_reverb_info.json''))
         = files srv (path_join outputDir (reverb_output_id (Some rid) name @ ''_reverb_info.json''))"
proof -
  define ident where "ident = reverb_output_id (Some rid) name"
  let ?src = "path_join reverbDir (''reverb_'' @ interpolate (pop (split_on CHR ''_'' ident)) @ ''.json'')"
  let ?wav = "path_join outputDir (ident @ ''.wav'')"
  let ?info = "path_join outputDir (ident @ ''_reverb_info.json'')"
  have "CHR ''_'' \<notin> set (rid @ ''/'' @ name)" using assms(1,2) by simp
  then have "last (split_on CHR ''_'' (''reverb'' @ CHR ''_'' # (rid @ ''/'' @ name))) = rid @ ''/'' @ name"
    by (rule last_split_on)
  then have p: "pop (split_on CHR ''_'' ident) = Some (rid @ ''/'' @ name)"
    by (simp add: ident_def pop_def reverb_output_id_def interpolate_def split_on_nonempty)
  have "rev ?src \<noteq> rev ?wav"
    by (simp add: path_join_def)
  then have ne: "?src \<noteq> ?wav" by auto
  have ne2: "?info \<noteq> ?wav"
    by (simp add: path_join_def)
  have none: "files srv ?src = None"
    using assms(4) by (simp add: p interpolate_def)
  have nonempty: "ident \<noteq> []" by (simp add: ident_def reverb_output_id_def)
  have "files (snd (save_reverb outputDir reverbDir srv (Some ident) (Some d))) ?info = files srv ?info"
    using assms(3) nonempty ne ne2 none
    by (simp add: save_reverb_def Let_def)
  then show ?thesis
    by (simp add: ident_def)
qed

subsection \<open>Claim about the saved artifact\<close>

text \<open>
  C9 fails. The page saves the render of the job \<open>reverb_1/x\<close>; the server writes
  \<open>out/reverb_1/x.wav\<close>, takes \<open>1/x\<close> for the preset id, finds no
  \<open>presets/reverb_1/x.json\<close>, and writes no \<open>out/reverb_1/x_reverb_info.json\<close>, although
  the preset \<open>presets/reverb_1.json\<close> is on disk.
\<close>

theorem saved_without_preset_copy:
  "fst (save_reverb ''out'' ''presets'' preset_on_disk (Some ''reverb_1/x'') (Some ''UklGRg=='')) = Saved ''out/reverb_1/x.wav''
   \<and> files (snd (save_reverb ''out'' ''presets'' preset_on_disk (Some ''reverb_1/x'') (Some ''UklGRg=='')))
        ''out/reverb_1/x.wav'' = Some ''UklGRg==''
   \<and> files (snd (save_reverb ''out'' ''presets'' preset_on_disk (Some ''reverb_1/x'') (Some ''UklGRg=='')))
        ''out/reverb_1/x_reverb_info.json'' = None
   \<and> files preset_on_disk ''presets/reverb_1.json'' \<noteq> None"
  by (simp add: save_reverb_def preset_on_disk_def path_join_def pop_def interpolate_def Let_def)

section \<open>Properties of the WAV encoder\<close>

subsection \<open>Sixteen-bit values\<close>








subsection \<open>Writes keep the size of the buffer\<close>

lemma keeps_size_setUint8: "off + 1 \<le> n \<Longrightarrow> keeps_size n (setUint8 off v)"
  by (simp add: keeps_size_def setUint8_def)





subsection \<open>The data section\<close>








subsection \<open>Claim about the encoder\<close>



end
